theory Spec2Isabelle
  imports Complex_Main "HOL-Library.Word"
begin

unbundle bit_operations_syntax

section \<open>JavaScript values\<close>

text \<open>
  The library is JavaScript. A number is an IEEE double: a finite value, \<open>NaN\<close> or an
  infinity. The finite values are modelled as reals; every number the code computes with
  is an integer of magnitude below \<open>2^53\<close>, where doubles are exact. A string is its
  list of UTF-16 code units (\<open>charCodeAt\<close>), a \<open>Uint8Array\<close> is a list of bytes.
\<close>

type_synonym byte = "8 word"
type_synonym jsstring = "nat list"

datatype jsnum = Fin real | NaN | PInf | NInf

text \<open>
  A thrown \<open>Error\<close> is its message. \<open>Error m\<close> has the literal message \<open>m\<close>
  of the source; where the source builds the message from a literal and a string value,
  \<open>ErrorText u\<close> has the code units \<open>u\<close> of the built message.
\<close>

datatype error = Error string | ErrorText jsstring

text \<open>A string literal of the source, as code units.\<close>

definition js :: "string \<Rightarrow> jsstring" where
  "js s = map of_char s"

text \<open>\<open>Math.floor\<close>, the strict comparisons and \<open>ToInt32\<close> of ECMAScript on numbers.\<close>

fun Math_floor :: "jsnum \<Rightarrow> jsnum" where
  "Math_floor (Fin x) = Fin (of_int \<lfloor>x\<rfloor>)"
| "Math_floor n = n"

fun strict_eq :: "jsnum \<Rightarrow> jsnum \<Rightarrow> bool" where
  "strict_eq NaN _ = False"
| "strict_eq _ NaN = False"
| "strict_eq a b = (a = b)"

fun js_lt :: "jsnum \<Rightarrow> jsnum \<Rightarrow> bool" where
  "js_lt NaN _ = False"
| "js_lt _ NaN = False"
| "js_lt (Fin a) (Fin b) = (a < b)"
| "js_lt NInf b = (b \<noteq> NInf)"
| "js_lt a PInf = (a \<noteq> PInf)"
| "js_lt _ _ = False"

definition js_gt :: "jsnum \<Rightarrow> jsnum \<Rightarrow> bool" where
  "js_gt a b = js_lt b a"

definition trunc :: "real \<Rightarrow> int" where
  "trunc x = (if x < 0 then - \<lfloor>- x\<rfloor> else \<lfloor>x\<rfloor>)"

fun ToInt32 :: "jsnum \<Rightarrow> 32 word" where
  "ToInt32 (Fin x) = word_of_int (trunc x)"
| "ToInt32 _ = 0"

section \<open>Typed arrays and DataView\<close>

text \<open>
  \<open>DataView\<close> reads and writes big-endian. Every offset the library uses lies inside
  its fixed-size buffer (150 bytes of a transaction, 34 of an address).
\<close>

definition getUint16 :: "byte list \<Rightarrow> nat \<Rightarrow> nat" where
  "getUint16 bs off = unat (bs ! off) * 256 + unat (bs ! (off + 1))"

definition getUint32 :: "byte list \<Rightarrow> nat \<Rightarrow> nat" where
  "getUint32 bs off =
     unat (bs ! off) * 16777216 + unat (bs ! (off + 1)) * 65536 +
     unat (bs ! (off + 2)) * 256 + unat (bs ! (off + 3))"

definition setUint16 :: "byte list \<Rightarrow> nat \<Rightarrow> 32 word \<Rightarrow> byte list" where
  "setUint16 bs off v = bs[off := ucast (drop_bit 8 v), off + 1 := ucast v]"

definition setInt32 :: "byte list \<Rightarrow> nat \<Rightarrow> 32 word \<Rightarrow> byte list" where
  "setInt32 bs off v =
     bs[off := ucast (drop_bit 24 v), off + 1 := ucast (drop_bit 16 v),
        off + 2 := ucast (drop_bit 8 v), off + 3 := ucast v]"

text \<open>\<open>target.set(src, off)\<close>: \<open>src\<close> copied over \<open>target\<close> from \<open>off\<close> on; it fits.\<close>

definition set_at :: "byte list \<Rightarrow> byte list \<Rightarrow> nat \<Rightarrow> byte list" where
  "set_at target src off = take off target @ src @ drop (off + length src) target"

text \<open>\<open>bytes.subarray(from, to)\<close>, clamped to the array as the built-in does.\<close>

definition subarray :: "byte list \<Rightarrow> nat \<Rightarrow> nat \<Rightarrow> byte list" where
  "subarray bs from to = drop from (take to bs)"

section \<open>Values passed to the library\<close>

text \<open>
  The three classes that only wrap a buffer, and the values a caller can pass where the
  library tests \<open>typeof\<close> or \<open>instanceof\<close>. \<open>Other\<close> stands for every value
  of another kind (objects, arrays, booleans, \<open>null\<close>).
\<close>

record address =
  a_bytes :: "byte list"

record publicKey =
  pk_bytes :: "byte list"

record secretKey =
  sk_bytes :: "byte list"

datatype jsvalue =
    Undefined
  | Num jsnum
  | Str jsstring
  | Uint8Array "byte list"
  | AddressObj address
  | PublicKeyObj publicKey
  | SecretKeyObj secretKey
  | Other

section \<open>Prefix codec\<close>

text \<open>
  \<open>versionToPrefix\<close> and \<open>prefixToVersion\<close>. The bit operations of the source act on
  \<open>ToInt32\<close> of their operand; \<open>>>\<close> is the arithmetic shift.
\<close>

definition versionToPrefix :: "jsvalue \<Rightarrow> error + jsstring" where
  "versionToPrefix version =
     (case version of
        Num v \<Rightarrow>
          if \<not> strict_eq (Math_floor v) v then Inl (Error ''version must be integer'')
          else if strict_eq v (Fin 0) then Inr (js ''genesis'')
          else if ToInt32 v AND 0x8000 = 0x8000
            then Inl (Error ''incorrect version - first bit must be zero'')
          else
            let a = signed_drop_bit 10 (ToInt32 v AND 0x7C00);
                b = signed_drop_bit 5 (ToInt32 v AND 0x03E0);
                c = ToInt32 v AND 0x001F
            in if a <s 1 \<or> 26 <s a then Inl (Error ''incorrect version - first char'')
               else if b <s 1 \<or> 26 <s b then Inl (Error ''incorrect version - second char'')
               else if c <s 1 \<or> 26 <s c then Inl (Error ''incorrect version - third char'')
               else Inr [unat (a + 96), unat (b + 96), unat (c + 96)]
      | _ \<Rightarrow> Inl (Error ''version must be number''))"

definition prefixToVersion :: "jsvalue \<Rightarrow> error + nat" where
  "prefixToVersion p =
     (case p of
        Str s \<Rightarrow>
          if s = js ''genesis'' then Inr 0
          else if length s \<noteq> 3 then Inl (Error ''prefix must be 3 bytes ling'')
          else
            let a = int (s ! 0) - 96;
                b = int (s ! 1) - 96;
                c = int (s ! 2) - 96
            in if a < 1 \<or> a > 26 then Inl (Error ''incorrect prefix - first char'')
               else if b < 1 \<or> b > 26 then Inl (Error ''incorrect prefix - second char'')
               else if c < 1 \<or> c > 26 then Inl (Error ''incorrect prefix - third char'')
               else Inr (nat (a * 1024 + b * 32 + c))
      | _ \<Rightarrow> Inl (Error ''prefix must be string''))"

section \<open>UTF-8 codec\<close>

text \<open>
  \<open>Utf8Encode\<close> walks the code units; in its last branch it reads the following unit
  with \<open>charCodeAt(++i)\<close>, which is \<open>NaN\<close> past the end and 0 after \<open>& 0x3ff\<close>.
  The pushed numbers become bytes in \<open>new Uint8Array(bytes)\<close>.
\<close>

fun Utf8Encode :: "jsstring \<Rightarrow> byte list" where
  "Utf8Encode [] = []"
| "Utf8Encode (chr # rest) =
     (if chr < 0x80 then of_nat chr # Utf8Encode rest
      else if chr < 0x800 then
        of_nat (0xc0 OR drop_bit 6 chr) # of_nat (0x80 OR (chr AND 0x3f)) # Utf8Encode rest
      else if chr < 0xd800 \<or> chr \<ge> 0xe000 then
        of_nat (0xe0 OR drop_bit 12 chr) # of_nat (0x80 OR (drop_bit 6 chr AND 0x3f)) #
        of_nat (0x80 OR (chr AND 0x3f)) # Utf8Encode rest
      else
        (case rest of
           [] \<Rightarrow>
             (let c = 0x10000 + push_bit 10 (chr AND 0x3ff)
              in [of_nat (0xf0 OR drop_bit 18 c), of_nat (0x80 OR (drop_bit 12 c AND 0x3f)),
                  of_nat (0x80 OR (drop_bit 6 c AND 0x3f)), of_nat (0x80 OR (c AND 0x3f))])
         | nxt # rest' \<Rightarrow>
             (let c = 0x10000 + push_bit 10 (chr AND 0x3ff) + (nxt AND 0x3ff)
              in of_nat (0xf0 OR drop_bit 18 c) # of_nat (0x80 OR (drop_bit 12 c AND 0x3f)) #
                 of_nat (0x80 OR (drop_bit 6 c AND 0x3f)) # of_nat (0x80 OR (c AND 0x3f)) #
                 Utf8Encode rest')))"

text \<open>
  \<open>Utf8Decode\<close>: \<open>bytes[++i]\<close> past the end is \<open>undefined\<close>, 0 under \<open>&\<close>.
  \<open>String.fromCharCode\<close> keeps the low 16 bits of its argument.
\<close>

definition byte_at :: "byte list \<Rightarrow> nat \<Rightarrow> 32 word" where
  "byte_at bs i = (if i < length bs then ucast (bs ! i) else 0)"

definition fromCharCode :: "32 word \<Rightarrow> nat" where
  "fromCharCode w = unat (w AND 0xFFFF)"

function Utf8Decode_from :: "byte list \<Rightarrow> nat \<Rightarrow> jsstring" where
  "Utf8Decode_from bs i =
     (if i < length bs then
        (let chr = byte_at bs i in
         if chr < 0x80 then fromCharCode chr # Utf8Decode_from bs (i + 1)
         else if chr > 0xBF \<and> chr < 0xE0 then
           fromCharCode (push_bit 6 (chr AND 0x1F) OR (byte_at bs (i + 1) AND 0x3F))
             # Utf8Decode_from bs (i + 2)
         else if chr > 0xDF \<and> chr < 0xF0 then
           fromCharCode (push_bit 12 (chr AND 0x0F) OR push_bit 6 (byte_at bs (i + 1) AND 0x3F)
               OR (byte_at bs (i + 2) AND 0x3F))
             # Utf8Decode_from bs (i + 3)
         else
           (let charCode = (push_bit 18 (chr AND 0x07) OR push_bit 12 (byte_at bs (i + 1) AND 0x3F)
                 OR push_bit 6 (byte_at bs (i + 2) AND 0x3F) OR (byte_at bs (i + 3) AND 0x3F))
                 - 0x010000
            in fromCharCode (signed_drop_bit 10 charCode OR 0xD800)
               # fromCharCode ((charCode AND 0x03FF) OR 0xDC00)
               # Utf8Decode_from bs (i + 4)))
      else [])"
  by pat_completeness auto
termination
  by (relation "measure (\<lambda>(bs, i). length bs - i)") auto

declare Utf8Decode_from.simps [simp del]

definition Utf8Decode :: "byte list \<Rightarrow> jsstring" where
  "Utf8Decode bs = Utf8Decode_from bs 0"

section \<open>Bech32\<close>

text \<open>
  The codec works on 32-bit integers: \<open><<\<close>, \<open>>>\<close> and the bitwise operators of
  JavaScript. A shift count is taken modulo 32.
\<close>

definition shl :: "32 word \<Rightarrow> nat \<Rightarrow> 32 word" where
  "shl x n = push_bit (n mod 32) x"

definition sar :: "32 word \<Rightarrow> nat \<Rightarrow> 32 word" where
  "sar x n = signed_drop_bit (n mod 32) x"

definition ALPHABET :: jsstring where
  "ALPHABET = js ''qpzry9x8gf2tvdw0s3jn54khce6mua7l''"

definition ALPHABET_MAP :: "nat \<rightharpoonup> 32 word" where
  "ALPHABET_MAP = map_of
     [(of_char CHR ''0'', 15), (of_char CHR ''2'', 10), (of_char CHR ''3'', 17),
      (of_char CHR ''4'', 21), (of_char CHR ''5'', 20), (of_char CHR ''6'', 26),
      (of_char CHR ''7'', 30), (of_char CHR ''8'', 7), (of_char CHR ''9'', 5),
      (of_char CHR ''q'', 0), (of_char CHR ''p'', 1), (of_char CHR ''z'', 2),
      (of_char CHR ''r'', 3), (of_char CHR ''y'', 4), (of_char CHR ''x'', 6),
      (of_char CHR ''g'', 8), (of_char CHR ''f'', 9), (of_char CHR ''t'', 11),
      (of_char CHR ''v'', 12), (of_char CHR ''d'', 13), (of_char CHR ''w'', 14),
      (of_char CHR ''s'', 16), (of_char CHR ''j'', 18), (of_char CHR ''n'', 19),
      (of_char CHR ''k'', 22), (of_char CHR ''h'', 23), (of_char CHR ''c'', 24),
      (of_char CHR ''e'', 25), (of_char CHR ''m'', 27), (of_char CHR ''u'', 28),
      (of_char CHR ''a'', 29), (of_char CHR ''l'', 31)]"

text \<open>\<open>s.charAt(i)\<close>: the one-unit string at \<open>i\<close>, the empty string outside \<open>s\<close>.\<close>

definition charAt :: "jsstring \<Rightarrow> 32 word \<Rightarrow> jsstring" where
  "charAt s i = (if 0 \<le>s i \<and> nat (sint i) < length s then [s ! nat (sint i)] else [])"

definition polymodStep :: "32 word \<Rightarrow> 32 word" where
  "polymodStep pre =
     (let b = signed_drop_bit 25 pre
      in push_bit 5 (pre AND 0x1FFFFFF) XOR
         (- (signed_drop_bit 0 b AND 1) AND 0x3b6a57b2) XOR
         (- (signed_drop_bit 1 b AND 1) AND 0x26508e6d) XOR
         (- (signed_drop_bit 2 b AND 1) AND 0x1ea119fa) XOR
         (- (signed_drop_bit 3 b AND 1) AND 0x3d4233dd) XOR
         (- (signed_drop_bit 4 b AND 1) AND 0x2a1462b3))"

text \<open>
  \<open>_prefixChk\<close>: the first loop, over the code units that remain of \<open>prefix\<close>,
  throws on a code unit outside 33..126, the second folds the low five bits in.
\<close>

fun prefixChk_high :: "jsstring \<Rightarrow> jsstring \<Rightarrow> 32 word \<Rightarrow> error + 32 word" where
  "prefixChk_high prefix [] chk = Inr chk"
| "prefixChk_high prefix (c # cs) chk =
     (if c < 33 \<or> c > 126 then Inl (ErrorText (js ''Invalid prefix ('' @ prefix @ js '')''))
      else prefixChk_high prefix cs (polymodStep chk XOR signed_drop_bit 5 (of_nat c)))"

fun prefixChk_low :: "jsstring \<Rightarrow> 32 word \<Rightarrow> 32 word" where
  "prefixChk_low [] chk = chk"
| "prefixChk_low (v # vs) chk = prefixChk_low vs (polymodStep chk XOR (of_nat v AND 0x1f))"

definition prefixChk :: "jsstring \<Rightarrow> error + 32 word" where
  "prefixChk p =
     (case prefixChk_high p p 1 of
        Inl e \<Rightarrow> Inl e
      | Inr chk \<Rightarrow> Inr (prefixChk_low p (polymodStep chk)))"

text \<open>
  \<open>_convert\<close>. The inner \<open>while (bits >= outBits)\<close> loop ends because \<open>outBits\<close> is
  positive: the source calls \<open>_convert\<close> with 8 and 5 only.
\<close>

function convert_drain :: "nat \<Rightarrow> 32 word \<Rightarrow> 32 word \<Rightarrow> nat \<Rightarrow> 32 word list \<Rightarrow> nat \<times> 32 word list" where
  "convert_drain outBits maxV val bits result =
     (if 0 < outBits \<and> bits \<ge> outBits
      then convert_drain outBits maxV val (bits - outBits)
             (result @ [sar val (bits - outBits) AND maxV])
      else (bits, result))"
  by pat_completeness auto
termination
  by (relation "measure (\<lambda>(outBits, maxV, val, bits, result). bits)") auto

declare convert_drain.simps [simp del]

fun convert_loop ::
  "nat \<Rightarrow> nat \<Rightarrow> 32 word \<Rightarrow> byte list \<Rightarrow> 32 word \<Rightarrow> nat \<Rightarrow> 32 word list \<Rightarrow> 32 word \<times> nat \<times> 32 word list" where
  "convert_loop inBits outBits maxV [] val bits result = (val, bits, result)"
| "convert_loop inBits outBits maxV (d # data) val bits result =
     (let val' = shl val inBits OR ucast d;
          (bits', result') = convert_drain outBits maxV val' (bits + inBits) result
      in convert_loop inBits outBits maxV data val' bits' result')"

definition convert :: "byte list \<Rightarrow> nat \<Rightarrow> nat \<Rightarrow> bool \<Rightarrow> error + 32 word list" where
  "convert data inBits outBits pad =
     (let maxV = shl 1 outBits - 1;
          (val, bits, result) = convert_loop inBits outBits maxV data 0 0 []
      in if pad then
           (if bits > 0 then Inr (result @ [shl val (outBits - bits) AND maxV]) else Inr result)
         else if bits \<ge> inBits then Inl (Error ''Excess padding'')
         else if shl val (outBits - bits) AND maxV \<noteq> 0 then Inl (Error ''Non-zero padding'')
         else Inr result)"

text \<open>
  \<open>String.prototype.toLowerCase\<close> and \<open>toUpperCase\<close> are built-ins of the language,
  with the case mapping of Unicode behind them. The codec takes them as parameters
  \<open>lc\<close> and \<open>uc\<close>; \<open>ascii_casing\<close> states what the theorems need of them, their
  behaviour on strings of ASCII code units.
\<close>

definition ascii_lower :: "nat \<Rightarrow> nat" where
  "ascii_lower c = (if 65 \<le> c \<and> c \<le> 90 then c + 32 else c)"

definition ascii_upper :: "nat \<Rightarrow> nat" where
  "ascii_upper c = (if 97 \<le> c \<and> c \<le> 122 then c - 32 else c)"

definition ascii_casing :: "(jsstring \<Rightarrow> jsstring) \<Rightarrow> (jsstring \<Rightarrow> jsstring) \<Rightarrow> bool" where
  "ascii_casing lc uc \<longleftrightarrow>
     (\<forall>s. (\<forall>c \<in> set s. c < 128) \<longrightarrow> lc s = map ascii_lower s \<and> uc s = map ascii_upper s)"

fun encode_words :: "32 word list \<Rightarrow> 32 word \<Rightarrow> jsstring \<Rightarrow> 32 word \<times> jsstring" where
  "encode_words [] chk result = (chk, result)"
| "encode_words (w # ws) chk result =
     encode_words ws (polymodStep chk XOR w) (result @ charAt ALPHABET w)"

definition Bech32_encode_words :: "(jsstring \<Rightarrow> jsstring) \<Rightarrow> jsstring \<Rightarrow> 32 word list \<Rightarrow> error + jsstring" where
  "Bech32_encode_words lc prefix0 ws =
     (let prefix = lc prefix0
      in case prefixChk prefix of
           Inl e \<Rightarrow> Inl e
         | Inr chk0 \<Rightarrow>
             let (chk1, result) = encode_words ws chk0 (prefix @ js ''1'');
                 chk = (polymodStep ^^ 6) chk1 XOR 1
             in Inr (result @
                  concat (map (\<lambda>i. charAt ALPHABET (sar chk ((5 - i) * 5) AND 0x1f)) [0..<6])))"

text \<open>\<open>str.lastIndexOf('1')\<close>, with \<open>None\<close> for -1.\<close>

fun lastIndexOf :: "jsstring \<Rightarrow> nat \<Rightarrow> nat option" where
  "lastIndexOf [] c = None"
| "lastIndexOf (x # xs) c =
     (case lastIndexOf xs c of
        Some i \<Rightarrow> Some (Suc i)
      | None \<Rightarrow> if x = c then Some 0 else None)"

text \<open>
  The loop of \<open>_decode\<close> over the data characters: \<open>i + 6 >= wordChars.length\<close> holds
  for the last six of them, which are the checksum and are not kept.
\<close>

fun decode_words :: "jsstring \<Rightarrow> 32 word \<Rightarrow> byte list \<Rightarrow> error + 32 word \<times> byte list" where
  "decode_words [] chk ws = Inr (chk, ws)"
| "decode_words (c # cs) chk ws =
     (case ALPHABET_MAP c of
        None \<Rightarrow> Inl (ErrorText (js ''Unknown character '' @ [c]))
      | Some v \<Rightarrow>
          decode_words cs (polymodStep chk XOR v)
            (if length cs < 6 then ws else ws @ [ucast v]))"

definition Bech32_decode_words ::
  "(jsstring \<Rightarrow> jsstring) \<Rightarrow> (jsstring \<Rightarrow> jsstring) \<Rightarrow> jsstring \<Rightarrow> error + jsstring \<times> byte list" where
  "Bech32_decode_words lc uc str0 =
     (let lowered = lc str0; uppered = uc str0
      in if str0 \<noteq> lowered \<and> str0 \<noteq> uppered then Inl (ErrorText (js ''Mixed-case string '' @ str0))
         else
           let str = lowered
           in case lastIndexOf str (of_char CHR ''1'') of
                None \<Rightarrow> Inl (ErrorText (js ''No separator character for '' @ str))
              | Some split \<Rightarrow>
                  if split = 0 then Inl (ErrorText (js ''Missing prefix for '' @ str))
                  else
                    let prefix = take split str; wordChars = drop (split + 1) str
                    in if length wordChars < 6 then Inl (Error ''Data too short'')
                       else case prefixChk prefix of
                              Inl e \<Rightarrow> Inl e
                            | Inr chk0 \<Rightarrow>
                                (case decode_words wordChars chk0 [] of
                                   Inl e \<Rightarrow> Inl e
                                 | Inr (chk, ws) \<Rightarrow>
                                     if chk \<noteq> 1 then Inl (ErrorText (js ''Invalid checksum for '' @ str))
                                     else Inr (prefix, ws)))"

definition Bech32_encode :: "(jsstring \<Rightarrow> jsstring) \<Rightarrow> byte list \<Rightarrow> error + jsstring" where
  "Bech32_encode lc bytes =
     (case versionToPrefix (Num (Fin (real (getUint16 bytes 0)))) of
        Inl e \<Rightarrow> Inl e
      | Inr prefix \<Rightarrow>
          (case convert (subarray bytes 2 (length bytes)) 8 5 True of
             Inl e \<Rightarrow> Inl e
           | Inr ws \<Rightarrow> Bech32_encode_words lc prefix ws))"

definition Bech32_decode ::
  "(jsstring \<Rightarrow> jsstring) \<Rightarrow> (jsstring \<Rightarrow> jsstring) \<Rightarrow> jsstring \<Rightarrow> error + byte list" where
  "Bech32_decode lc uc bech32 =
     (case Bech32_decode_words lc uc bech32 of
        Inl e \<Rightarrow> Inl e
      | Inr (prefix, ws) \<Rightarrow>
          (case convert ws 5 8 False of
             Inl e \<Rightarrow> Inl e
           | Inr bytes \<Rightarrow>
               if length bytes \<noteq> 32 then Inl (Error ''invalid data length'')
               else
                 let res = set_at (replicate 34 0) (map ucast bytes) 2
                 in case prefixToVersion (Str prefix) of
                      Inl e \<Rightarrow> Inl e
                    | Inr v \<Rightarrow> Inr (setUint16 res 0 (of_nat v))))"

section \<open>PublicKey, SecretKey and Address\<close>

definition PublicKey_new :: "jsvalue \<Rightarrow> error + publicKey" where
  "PublicKey_new bytes =
     (case bytes of
        Uint8Array bs \<Rightarrow>
          if length bs \<noteq> 32 then Inl (Error ''bytes must be 32 bytes length'')
          else Inr \<lparr>pk_bytes = set_at (replicate 32 0) bs 0\<rparr>
      | _ \<Rightarrow> Inl (Error ''bytes must be Uint8Array''))"

definition SecretKey_new :: "jsvalue \<Rightarrow> error + secretKey" where
  "SecretKey_new bytes =
     (case bytes of
        Uint8Array bs \<Rightarrow>
          if length bs \<noteq> 64 then Inl (Error ''bytes length must be 64 bytes'')
          else Inr \<lparr>sk_bytes = set_at (replicate 64 0) bs 0\<rparr>
      | _ \<Rightarrow> Inl (Error ''bytes type must be Uint8Array''))"

text \<open>\<open>Ed25519.publicKeyFromSecretKey\<close> copies bytes 32..63 of the secret key.\<close>

definition publicKeyFromSecretKey :: "byte list \<Rightarrow> byte list" where
  "publicKeyFromSecretKey secretKey = set_at (replicate 32 0) (subarray secretKey 32 64) 0"

definition SecretKey_publicKey :: "secretKey \<Rightarrow> error + publicKey" where
  "SecretKey_publicKey sk = PublicKey_new (Uint8Array (publicKeyFromSecretKey (sk_bytes sk)))"

text \<open>\<open>x & 0x7FFF\<close> and the like convert \<open>x\<close> with \<open>ToInt32\<close>; only numbers reach them.\<close>

fun number_bits :: "jsvalue \<Rightarrow> 32 word" where
  "number_bits (Num n) = ToInt32 n"
| "number_bits _ = 0"

definition Address_Genesis :: nat where
  "Address_Genesis = 0"

definition Address_Umi :: nat where
  "Address_Umi = 21929"

definition Address_get_version :: "address \<Rightarrow> nat" where
  "Address_get_version a = getUint16 (a_bytes a) 0"

definition Address_set_version :: "address \<Rightarrow> jsvalue \<Rightarrow> error + address" where
  "Address_set_version a version =
     (case versionToPrefix version of
        Inl e \<Rightarrow> Inl e
      | Inr _ \<Rightarrow> Inr (a\<lparr>a_bytes := setUint16 (a_bytes a) 0 (number_bits version AND 0x7FFF)\<rparr>))"

definition Address_new :: "jsvalue \<Rightarrow> error + address" where
  "Address_new bytes =
     (case bytes of
        Undefined \<Rightarrow> Address_set_version \<lparr>a_bytes = replicate 34 0\<rparr> (Num (Fin (real Address_Umi)))
      | Uint8Array bs \<Rightarrow>
          if length bs \<noteq> 34 then Inl (Error ''bytes length must be 34 bytes'')
          else Inr \<lparr>a_bytes = set_at (replicate 34 0) bs 0\<rparr>
      | _ \<Rightarrow> Inl (Error ''bytes type must be Uint8Array''))"

definition Address_get_publicKey :: "address \<Rightarrow> error + publicKey" where
  "Address_get_publicKey a =
     PublicKey_new (Uint8Array (subarray (a_bytes a) 2 (length (a_bytes a))))"

definition Address_set_publicKey :: "address \<Rightarrow> jsvalue \<Rightarrow> error + address" where
  "Address_set_publicKey a publicKey =
     (case publicKey of
        PublicKeyObj pk \<Rightarrow> Inr (a\<lparr>a_bytes := set_at (a_bytes a) (pk_bytes pk) 2\<rparr>)
      | _ \<Rightarrow> Inl (Error ''publicKey type must be PublicKey''))"

definition Address_get_prefix :: "address \<Rightarrow> error + jsstring" where
  "Address_get_prefix a = versionToPrefix (Num (Fin (real (Address_get_version a))))"

definition Address_set_prefix :: "address \<Rightarrow> jsvalue \<Rightarrow> error + address" where
  "Address_set_prefix a prefix =
     (case prefixToVersion prefix of
        Inl e \<Rightarrow> Inl e
      | Inr v \<Rightarrow> Address_set_version a (Num (Fin (real v))))"

definition Address_get_bech32 :: "(jsstring \<Rightarrow> jsstring) \<Rightarrow> address \<Rightarrow> error + jsstring" where
  "Address_get_bech32 lc a = Bech32_encode lc (a_bytes a)"

definition Address_set_bech32 ::
  "(jsstring \<Rightarrow> jsstring) \<Rightarrow> (jsstring \<Rightarrow> jsstring) \<Rightarrow> address \<Rightarrow> jsvalue \<Rightarrow> error + address" where
  "Address_set_bech32 lc uc a bech32 =
     (case bech32 of
        Str s \<Rightarrow>
          (case Bech32_decode lc uc s of
             Inl e \<Rightarrow> Inl e
           | Inr bs \<Rightarrow> Inr (a\<lparr>a_bytes := set_at (a_bytes a) bs 0\<rparr>))
      | _ \<Rightarrow> Inl (Error ''bech32 type must be a string''))"

definition Address_fromBech32 ::
  "(jsstring \<Rightarrow> jsstring) \<Rightarrow> (jsstring \<Rightarrow> jsstring) \<Rightarrow> jsvalue \<Rightarrow> error + address" where
  "Address_fromBech32 lc uc bech32 =
     (case Address_new Undefined of
        Inl e \<Rightarrow> Inl e
      | Inr a \<Rightarrow> Address_set_bech32 lc uc a bech32)"

definition Address_fromKey :: "jsvalue \<Rightarrow> error + address" where
  "Address_fromKey key =
     (case key of
        SecretKeyObj sk \<Rightarrow>
          (case Address_new Undefined of
             Inl e \<Rightarrow> Inl e
           | Inr a \<Rightarrow>
               (case SecretKey_publicKey sk of
                  Inl e \<Rightarrow> Inl e
                | Inr pk \<Rightarrow> Address_set_publicKey a (PublicKeyObj pk)))
      | PublicKeyObj pk \<Rightarrow>
          (case Address_new Undefined of
             Inl e \<Rightarrow> Inl e
           | Inr a \<Rightarrow> Address_set_publicKey a (PublicKeyObj pk))
      | _ \<Rightarrow> Inl (Error ''key type must be PublicKey or SecretKey''))"

section \<open>Transaction\<close>

text \<open>
  A transaction is its 150-byte buffer and \<open>_fieldsMap\<close>, the names of the fields
  marked as set. Every accessor is one function; a \<open>throw\<close> is the result \<open>Inl\<close>.
\<close>

record transaction =
  tx_bytes :: "byte list"
  fieldsMap :: "string set"

definition Genesis :: nat where "Genesis = 0"
definition Basic :: nat where "Basic = 1"
definition CreateStructure :: nat where "CreateStructure = 2"
definition UpdateStructure :: nat where "UpdateStructure = 3"
definition UpdateProfitAddress :: nat where "UpdateProfitAddress = 4"
definition UpdateFeeAddress :: nat where "UpdateFeeAddress = 5"
definition CreateTransitAddress :: nat where "CreateTransitAddress = 6"
definition DeleteTransitAddress :: nat where "DeleteTransitAddress = 7"

fun checkFields :: "transaction \<Rightarrow> string list \<Rightarrow> error + unit" where
  "checkFields tx [] = Inr ()"
| "checkFields tx (field # rest) =
     (if field \<in> fieldsMap tx then checkFields tx rest
      else Inl (Error (field @ '' must be set'')))"

definition setFields :: "transaction \<Rightarrow> string list \<Rightarrow> transaction" where
  "setFields tx names = tx\<lparr>fieldsMap := fieldsMap tx \<union> set names\<rparr>"

definition Transaction_new :: "jsvalue \<Rightarrow> error + transaction" where
  "Transaction_new bytes =
     (case bytes of
        Undefined \<Rightarrow> Inr \<lparr>tx_bytes = replicate 150 0, fieldsMap = {}\<rparr>
      | Uint8Array bs \<Rightarrow>
          if length bs \<noteq> 150 then Inl (Error ''bytes length must be 150 bytes'')
          else Inr (setFields \<lparr>tx_bytes = set_at (replicate 150 0) bs 0, fieldsMap = {}\<rparr>
                 [''version'', ''sender'', ''recipient'', ''value'', ''prefix'',
                  ''name'', ''profitPercent'', ''feePercent'', ''nonce'', ''signature''])
      | _ \<Rightarrow> Inl (Error ''bytes type must be Uint8Array''))"

definition Transaction_get_bytes :: "transaction \<Rightarrow> byte list" where
  "Transaction_get_bytes tx = set_at (replicate (length (tx_bytes tx)) 0) (tx_bytes tx) 0"

definition Transaction_get_version :: "transaction \<Rightarrow> error + nat" where
  "Transaction_get_version tx =
     (case checkFields tx [''version''] of
        Inl e \<Rightarrow> Inl e
      | Inr _ \<Rightarrow> Inr (unat (tx_bytes tx ! 0)))"

definition Transaction_set_version :: "transaction \<Rightarrow> jsvalue \<Rightarrow> error + transaction" where
  "Transaction_set_version tx version =
     (if ''version'' \<in> fieldsMap tx then Inl (Error ''could not update version'')
      else case version of
        Num v \<Rightarrow>
          if \<not> strict_eq (Math_floor v) v then Inl (Error ''version type must be integer'')
          else if js_lt v (Fin (real Genesis)) \<or> js_gt v (Fin (real DeleteTransitAddress))
            then Inl (Error ''incorrect version'')
          else Inr (setFields (tx\<lparr>tx_bytes := (tx_bytes tx)[0 := ucast (ToInt32 v)]\<rparr>)
                 [''version''])
      | _ \<Rightarrow> Inl (Error ''version type must be number''))"

definition Transaction_get_sender :: "transaction \<Rightarrow> error + address" where
  "Transaction_get_sender tx =
     (case checkFields tx [''sender''] of
        Inl e \<Rightarrow> Inl e
      | Inr _ \<Rightarrow> Address_new (Uint8Array (subarray (tx_bytes tx) 1 35)))"

definition Transaction_set_sender :: "transaction \<Rightarrow> jsvalue \<Rightarrow> error + transaction" where
  "Transaction_set_sender tx address =
     (case checkFields tx [''version''] of
        Inl e \<Rightarrow> Inl e
      | Inr _ \<Rightarrow>
          (case address of
             AddressObj a \<Rightarrow>
               (case Transaction_get_version tx of
                  Inl e \<Rightarrow> Inl e
                | Inr v \<Rightarrow>
                    if v = Genesis \<and> Address_get_version a \<noteq> Address_Genesis
                      then Inl (Error ''address version must be genesis'')
                    else if v \<noteq> Genesis \<and> Address_get_version a = Address_Genesis
                      then Inl (Error ''address version must not be genesis'')
                    else Inr (setFields (tx\<lparr>tx_bytes := set_at (tx_bytes tx) (a_bytes a) 1\<rparr>)
                           [''sender'']))
           | _ \<Rightarrow> Inl (Error ''address type must be Address'')))"

definition Transaction_get_recipient :: "transaction \<Rightarrow> error + address" where
  "Transaction_get_recipient tx =
     (case checkFields tx [''version''] of
        Inl e \<Rightarrow> Inl e
      | Inr _ \<Rightarrow>
          (case Transaction_get_version tx of
             Inl e \<Rightarrow> Inl e
           | Inr v \<Rightarrow>
               if v = CreateStructure \<or> v = UpdateStructure
                 then Inl (Error ''recipient unavailable for this transaction type'')
               else case checkFields tx [''recipient''] of
                      Inl e \<Rightarrow> Inl e
                    | Inr _ \<Rightarrow> Address_new (Uint8Array (subarray (tx_bytes tx) 35 69))))"

definition Transaction_set_recipient :: "transaction \<Rightarrow> jsvalue \<Rightarrow> error + transaction" where
  "Transaction_set_recipient tx address =
     (case checkFields tx [''version''] of
        Inl e \<Rightarrow> Inl e
      | Inr _ \<Rightarrow>
          (case Transaction_get_version tx of
             Inl e \<Rightarrow> Inl e
           | Inr v \<Rightarrow>
               if v = CreateStructure \<or> v = UpdateStructure
                 then Inl (Error ''recipient unavailable for this transaction type'')
               else case address of
                 AddressObj a \<Rightarrow>
                   if Address_get_version a = Address_Genesis
                     then Inl (Error ''recipient version must not be genesis'')
                   else if v = Genesis \<and> Address_get_version a \<noteq> Address_Umi
                     then Inl (Error ''recipient version must be umi'')
                   else if v \<noteq> Genesis \<and> v \<noteq> Basic \<and> Address_get_version a = Address_Umi
                     then Inl (Error ''recipient version must not be umi'')
                   else Inr (setFields (tx\<lparr>tx_bytes := set_at (tx_bytes tx) (a_bytes a) 35\<rparr>)
                          [''recipient''])
               | _ \<Rightarrow> Inl (Error ''recipient type must be Address'')))"

text \<open>
  The arithmetic of \<open>value\<close> and \<open>nonce\<close>. Subtraction and the division by
  \<open>4294967296\<close> are those of doubles; on the integers below \<open>2^53\<close> that pass the
  range check they are exact.
\<close>

fun js_minus :: "jsnum \<Rightarrow> jsnum \<Rightarrow> jsnum" where
  "js_minus (Fin a) (Fin b) = Fin (a - b)"
| "js_minus NaN _ = NaN"
| "js_minus _ NaN = NaN"
| "js_minus PInf PInf = NaN"
| "js_minus NInf NInf = NaN"
| "js_minus PInf _ = PInf"
| "js_minus NInf _ = NInf"
| "js_minus _ PInf = NInf"
| "js_minus _ NInf = PInf"

fun js_div_4294967296 :: "jsnum \<Rightarrow> jsnum" where
  "js_div_4294967296 (Fin a) = Fin (a / 4294967296)"
| "js_div_4294967296 n = n"

definition read_safe_u64 :: "byte list \<Rightarrow> nat \<Rightarrow> nat" where
  "read_safe_u64 bs off = getUint32 bs off * 4294967296 + getUint32 bs (off + 4)"

definition write_u64 :: "byte list \<Rightarrow> nat \<Rightarrow> jsnum \<Rightarrow> byte list" where
  "write_u64 bs off v =
     (let bs1 = setInt32 bs (off + 4) (ToInt32 v)
      in setInt32 bs1 off
           (ToInt32 (js_div_4294967296 (js_minus v (Fin (real (getUint32 bs1 (off + 4))))))))"

definition Transaction_get_value :: "transaction \<Rightarrow> error + nat" where
  "Transaction_get_value tx =
     (case checkFields tx [''version''] of
        Inl e \<Rightarrow> Inl e
      | Inr _ \<Rightarrow>
          (case Transaction_get_version tx of
             Inl e \<Rightarrow> Inl e
           | Inr v \<Rightarrow>
               if v \<noteq> Genesis \<and> v \<noteq> Basic
                 then Inl (Error ''value unavailable for this transaction type'')
               else case checkFields tx [''value''] of
                      Inl e \<Rightarrow> Inl e
                    | Inr _ \<Rightarrow>
                        if getUint16 (tx_bytes tx) 69 > 0x001f
                          then Inl (Error ''value is not safe integer'')
                        else Inr (read_safe_u64 (tx_bytes tx) 69)))"

definition Transaction_set_value :: "transaction \<Rightarrow> jsvalue \<Rightarrow> error + transaction" where
  "Transaction_set_value tx val =
     (case checkFields tx [''version''] of
        Inl e \<Rightarrow> Inl e
      | Inr _ \<Rightarrow>
          (case Transaction_get_version tx of
             Inl e \<Rightarrow> Inl e
           | Inr v \<Rightarrow>
               if v \<noteq> Genesis \<and> v \<noteq> Basic
                 then Inl (Error ''value unavailable for this transaction type'')
               else case val of
                 Num n \<Rightarrow>
                   if \<not> strict_eq (Math_floor n) n then Inl (Error ''value must be integer'')
                   else if js_lt n (Fin 1) \<or> js_gt n (Fin 9007199254740991)
                     then Inl (Error ''value must be between 1 and 9007199254740991'')
                   else Inr (setFields (tx\<lparr>tx_bytes := write_u64 (tx_bytes tx) 69 n\<rparr>)
                          [''value''])
               | _ \<Rightarrow> Inl (Error ''value must be number'')))"

definition Transaction_get_prefix :: "transaction \<Rightarrow> error + jsstring" where
  "Transaction_get_prefix tx =
     (case checkFields tx [''version''] of
        Inl e \<Rightarrow> Inl e
      | Inr _ \<Rightarrow>
          (case Transaction_get_version tx of
             Inl e \<Rightarrow> Inl e
           | Inr v \<Rightarrow>
               if v \<noteq> CreateStructure \<and> v \<noteq> UpdateStructure
                 then Inl (Error ''prefix unavailable for this transaction type'')
               else case checkFields tx [''prefix''] of
                      Inl e \<Rightarrow> Inl e
                    | Inr _ \<Rightarrow> versionToPrefix (Num (Fin (real (getUint16 (tx_bytes tx) 35))))))"

definition Transaction_set_prefix :: "transaction \<Rightarrow> jsvalue \<Rightarrow> error + transaction" where
  "Transaction_set_prefix tx prefix =
     (case checkFields tx [''version''] of
        Inl e \<Rightarrow> Inl e
      | Inr _ \<Rightarrow>
          (case Transaction_get_version tx of
             Inl e \<Rightarrow> Inl e
           | Inr v \<Rightarrow>
               if v \<noteq> CreateStructure \<and> v \<noteq> UpdateStructure
                 then Inl (Error ''prefix unavailable for this transaction type'')
               else case prefixToVersion prefix of
                      Inl e \<Rightarrow> Inl e
                    | Inr pv \<Rightarrow>
                        Inr (setFields (tx\<lparr>tx_bytes := setUint16 (tx_bytes tx) 35 (of_nat pv)\<rparr>)
                          [''prefix''])))"

definition Transaction_get_name :: "transaction \<Rightarrow> error + jsstring" where
  "Transaction_get_name tx =
     (case checkFields tx [''version''] of
        Inl e \<Rightarrow> Inl e
      | Inr _ \<Rightarrow>
          (case Transaction_get_version tx of
             Inl e \<Rightarrow> Inl e
           | Inr v \<Rightarrow>
               if v \<noteq> CreateStructure \<and> v \<noteq> UpdateStructure
                 then Inl (Error ''name unavailable for this transaction type'')
               else case checkFields tx [''name''] of
                      Inl e \<Rightarrow> Inl e
                    | Inr _ \<Rightarrow>
                        Inr (Utf8Decode
                          (subarray (tx_bytes tx) (41 + 1) (41 + 1 + unat (tx_bytes tx ! 41))))))"

definition Transaction_set_name :: "transaction \<Rightarrow> jsvalue \<Rightarrow> error + transaction" where
  "Transaction_set_name tx name =
     (case checkFields tx [''version''] of
        Inl e \<Rightarrow> Inl e
      | Inr _ \<Rightarrow>
          (case Transaction_get_version tx of
             Inl e \<Rightarrow> Inl e
           | Inr v \<Rightarrow>
               if v \<noteq> CreateStructure \<and> v \<noteq> UpdateStructure
                 then Inl (Error ''name unavailable for this transaction type'')
               else case name of
                 Str s \<Rightarrow>
                   (let txt = Utf8Encode s
                    in if length txt \<ge> 36 then Inl (Error ''name is too long'')
                       else Inr (setFields
                              (tx\<lparr>tx_bytes :=
                                 set_at ((tx_bytes tx)[41 := of_nat (length txt)]) txt (41 + 1)\<rparr>)
                              [''name'']))
               | _ \<Rightarrow> Inl (Error ''name type must be a string'')))"

definition Transaction_get_profitPercent :: "transaction \<Rightarrow> error + nat" where
  "Transaction_get_profitPercent tx =
     (case checkFields tx [''version''] of
        Inl e \<Rightarrow> Inl e
      | Inr _ \<Rightarrow>
          (case Transaction_get_version tx of
             Inl e \<Rightarrow> Inl e
           | Inr v \<Rightarrow>
               if v \<noteq> CreateStructure \<and> v \<noteq> UpdateStructure
                 then Inl (Error ''profitPercent unavailable for this transaction type'')
               else case checkFields tx [''profitPercent''] of
                      Inl e \<Rightarrow> Inl e
                    | Inr _ \<Rightarrow> Inr (getUint16 (tx_bytes tx) 37)))"

definition Transaction_set_profitPercent :: "transaction \<Rightarrow> jsvalue \<Rightarrow> error + transaction" where
  "Transaction_set_profitPercent tx percent =
     (case checkFields tx [''version''] of
        Inl e \<Rightarrow> Inl e
      | Inr _ \<Rightarrow>
          (case Transaction_get_version tx of
             Inl e \<Rightarrow> Inl e
           | Inr v \<Rightarrow>
               if v \<noteq> CreateStructure \<and> v \<noteq> UpdateStructure
                 then Inl (Error ''profitPercent unavailable for this transaction type'')
               else case percent of
                 Num n \<Rightarrow>
                   if \<not> strict_eq (Math_floor n) n then Inl (Error ''percent must be integer'')
                   else if js_lt n (Fin 100) \<or> js_gt n (Fin 500)
                     then Inl (Error ''percent value must be between 100 and 500'')
                   else Inr (setFields
                          (tx\<lparr>tx_bytes := setUint16 (tx_bytes tx) 37 (ToInt32 n)\<rparr>)
                          [''profitPercent''])
               | _ \<Rightarrow> Inl (Error ''percent must be number'')))"

definition Transaction_get_feePercent :: "transaction \<Rightarrow> error + nat" where
  "Transaction_get_feePercent tx =
     (case checkFields tx [''version''] of
        Inl e \<Rightarrow> Inl e
      | Inr _ \<Rightarrow>
          (case Transaction_get_version tx of
             Inl e \<Rightarrow> Inl e
           | Inr v \<Rightarrow>
               if v \<noteq> CreateStructure \<and> v \<noteq> UpdateStructure
                 then Inl (Error ''feePercent unavailable for this transaction type'')
               else case checkFields tx [''feePercent''] of
                      Inl e \<Rightarrow> Inl e
                    | Inr _ \<Rightarrow> Inr (getUint16 (tx_bytes tx) 39)))"

definition Transaction_set_feePercent :: "transaction \<Rightarrow> jsvalue \<Rightarrow> error + transaction" where
  "Transaction_set_feePercent tx percent =
     (case checkFields tx [''version''] of
        Inl e \<Rightarrow> Inl e
      | Inr _ \<Rightarrow>
          (case Transaction_get_version tx of
             Inl e \<Rightarrow> Inl e
           | Inr v \<Rightarrow>
               if v \<noteq> CreateStructure \<and> v \<noteq> UpdateStructure
                 then Inl (Error ''feePercent unavailable for this transaction type'')
               else case percent of
                 Num n \<Rightarrow>
                   if \<not> strict_eq (Math_floor n) n then Inl (Error ''percent type must be integer'')
                   else if js_lt n (Fin 0) \<or> js_gt n (Fin 2000)
                     then Inl (Error ''percent value must be between 100 and 500'')
                   else Inr (setFields
                          (tx\<lparr>tx_bytes := setUint16 (tx_bytes tx) 39 (ToInt32 n)\<rparr>)
                          [''feePercent''])
               | _ \<Rightarrow> Inl (Error ''percent type must be number'')))"

definition Transaction_get_nonce :: "transaction \<Rightarrow> error + nat" where
  "Transaction_get_nonce tx =
     (case checkFields tx [''nonce''] of
        Inl e \<Rightarrow> Inl e
      | Inr _ \<Rightarrow>
          if getUint16 (tx_bytes tx) 77 > 0x001f then Inl (Error ''nonce is not safe integer'')
          else Inr (read_safe_u64 (tx_bytes tx) 77))"

definition Transaction_set_nonce :: "transaction \<Rightarrow> jsvalue \<Rightarrow> error + transaction" where
  "Transaction_set_nonce tx nonce =
     (case nonce of
        Num n \<Rightarrow>
          if \<not> strict_eq (Math_floor n) n then Inl (Error ''nonce type must be integer'')
          else if js_lt n (Fin 0) \<or> js_gt n (Fin 9007199254740991)
            then Inl (Error ''nonce value must be between 0 and 9007199254740991'')
          else Inr (setFields (tx\<lparr>tx_bytes := write_u64 (tx_bytes tx) 77 n\<rparr>) [''nonce''])
      | _ \<Rightarrow> Inl (Error ''nonce type must be number''))"

text \<open>\<open>this.sender.publicKey.signatureLength\<close>: both getters run, then the constant 64.\<close>

definition sender_signatureLength :: "transaction \<Rightarrow> error + nat" where
  "sender_signatureLength tx =
     (case Transaction_get_sender tx of
        Inl e \<Rightarrow> Inl e
      | Inr a \<Rightarrow>
          (case Address_get_publicKey a of
             Inl e \<Rightarrow> Inl e
           | Inr pk \<Rightarrow> Inr 64))"

definition Transaction_get_signature :: "transaction \<Rightarrow> error + byte list" where
  "Transaction_get_signature tx =
     (case checkFields tx [''signature''] of
        Inl e \<Rightarrow> Inl e
      | Inr _ \<Rightarrow>
          (case sender_signatureLength tx of
             Inl e \<Rightarrow> Inl e
           | Inr len \<Rightarrow>
               Inr (set_at (replicate len 0) (subarray (tx_bytes tx) 85 (85 + len)) 0)))"

definition Transaction_set_signature :: "transaction \<Rightarrow> jsvalue \<Rightarrow> error + transaction" where
  "Transaction_set_signature tx signature =
     (case checkFields tx [''version'', ''sender''] of
        Inl e \<Rightarrow> Inl e
      | Inr _ \<Rightarrow>
          (case signature of
             Uint8Array sig \<Rightarrow>
               (case sender_signatureLength tx of
                  Inl e \<Rightarrow> Inl e
                | Inr len \<Rightarrow>
                    if length sig \<noteq> len then Inl (Error ''incorrect signature length'')
                    else Inr (setFields (tx\<lparr>tx_bytes := set_at (tx_bytes tx) sig 85\<rparr>)
                           [''signature'']))
           | _ \<Rightarrow> Inl (Error ''signature type must be Uint8Array'')))"

section \<open>Notions used in the statements\<close>

text \<open>
  The version byte of a transaction, the eight big-endian bytes of a number and the
  big-endian number stored in eight bytes of a buffer.
\<close>

definition tx_version :: "transaction \<Rightarrow> nat" where
  "tx_version tx = unat (tx_bytes tx ! 0)"

definition be64 :: "nat \<Rightarrow> byte list" where
  "be64 n = map (\<lambda>i. of_nat (n div 256 ^ (7 - i))) [0..<8]"

definition u64_at :: "byte list \<Rightarrow> nat \<Rightarrow> nat" where
  "u64_at bs off = foldl (\<lambda>a b. a * 256 + unat b) 0 (take 8 (drop off bs))"

text \<open>
  Objects built through the constructors and setters, used as concrete inputs: an empty
  transaction, a Genesis and a Basic transaction, and the address \<open>new Address()\<close>.
\<close>

definition empty_tx :: transaction where
  "empty_tx = projr (Transaction_new Undefined)"

definition genesis_tx :: transaction where
  "genesis_tx = projr (Transaction_set_version empty_tx (Num (Fin 0)))"

definition basic_tx :: transaction where
  "basic_tx = projr (Transaction_set_version empty_tx (Num (Fin 1)))"

definition umi_address :: address where
  "umi_address = projr (Address_new Undefined)"

text \<open>The transaction parsed from 150 zero bytes.\<close>

definition zero_tx :: transaction where
  "zero_tx = projr (Transaction_new (Uint8Array (replicate 150 0)))"

text \<open>
  A version word the prefix codec accepts: 0, or bit 15 clear and each of the three 5-bit
  fields in 1..26. \<open>roundtrip\<close> is \<open>prefixToVersion(versionToPrefix(v))\<close>.
\<close>

definition valid_version :: "nat \<Rightarrow> bool" where
  "valid_version v \<longleftrightarrow>
     v = 0 \<or>
     (even (v div 32768) \<and>
      1 \<le> v div 1024 mod 32 \<and> v div 1024 mod 32 \<le> 26 \<and>
      1 \<le> v div 32 mod 32 \<and> v div 32 mod 32 \<le> 26 \<and>
      1 \<le> v mod 32 \<and> v mod 32 \<le> 26)"

definition roundtrip :: "jsvalue \<Rightarrow> error + nat" where
  "roundtrip v = (case versionToPrefix v of Inl e \<Rightarrow> Inl e | Inr p \<Rightarrow> prefixToVersion (Str p))"

text \<open>
  The invariant of an address: bit 7 of byte 0, the high bit of the big-endian version word.
  A sequence of setter calls on an address: a call that throws leaves the object as it was.
\<close>

definition high_bit_zero :: "address \<Rightarrow> bool" where
  "high_bit_zero a \<longleftrightarrow> \<not> bit (a_bytes a ! 0) 7"

datatype setter_call = SetVersion jsvalue | SetPublicKey jsvalue | SetPrefix jsvalue | SetBech32 jsvalue

fun call_setter ::
  "(jsstring \<Rightarrow> jsstring) \<Rightarrow> (jsstring \<Rightarrow> jsstring) \<Rightarrow> address \<Rightarrow> setter_call \<Rightarrow> error + address" where
  "call_setter lc uc a (SetVersion v) = Address_set_version a v"
| "call_setter lc uc a (SetPublicKey v) = Address_set_publicKey a v"
| "call_setter lc uc a (SetPrefix v) = Address_set_prefix a v"
| "call_setter lc uc a (SetBech32 v) = Address_set_bech32 lc uc a v"

fun run_setters ::
  "(jsstring \<Rightarrow> jsstring) \<Rightarrow> (jsstring \<Rightarrow> jsstring) \<Rightarrow> address \<Rightarrow> setter_call list \<Rightarrow> address" where
  "run_setters lc uc a [] = a"
| "run_setters lc uc a (c # cs) =
     run_setters lc uc (case call_setter lc uc a c of Inl e \<Rightarrow> a | Inr a' \<Rightarrow> a') cs"

definition addr_inv :: "address \<Rightarrow> bool" where
  "addr_inv a \<longleftrightarrow> 2 \<le> length (a_bytes a) \<and> \<not> bit (a_bytes a ! 0) 7"

text \<open>
  Strings of ASCII code units, and those that hold an upper-case or a lower-case letter of
  the Latin alphabet.
\<close>

definition ascii :: "jsstring \<Rightarrow> bool" where
  "ascii s \<longleftrightarrow> (\<forall>c \<in> set s. c < 128)"

definition has_upper :: "jsstring \<Rightarrow> bool" where
  "has_upper s \<longleftrightarrow> (\<exists>c \<in> set s. 65 \<le> c \<and> c \<le> 90)"

definition has_lower :: "jsstring \<Rightarrow> bool" where
  "has_lower s \<longleftrightarrow> (\<exists>c \<in> set s. 97 \<le> c \<and> c \<le> 122)"

section \<open>Numbers and buffers\<close>

lemma be64_unfold: "be64 n = [of_nat (n div 2^56), of_nat (n div 2^48), of_nat (n div 2^40), of_nat (n div 2^32),
   of_nat (n div 2^24), of_nat (n div 2^16), of_nat (n div 2^8), of_nat n]"
  by (simp add: be64_def upt_rec)

lemma split_window:
  assumes "off + k \<le> length bs"
  obtains pre mid post where "bs = pre @ mid @ post" "length pre = off" "length mid = k"
proof
  show "bs = take off bs @ take k (drop off bs) @ drop (off + k) bs"
    by (metis append_take_drop_id drop_drop add.commute)
  show "length (take off bs) = off" using assms by simp
  show "length (take k (drop off bs)) = k" using assms by simp
qed

lemma list8:
  assumes "length (mid :: 'a list) = 8"
  obtains a b c d e f g h where "mid = [a, b, c, d, e, f, g, h]"
  using assms by (auto simp: length_Suc_conv eval_nat_numeral)

lemma upd_window: "(pre @ ys)[length pre + k := v] = pre @ ys[k := v]"
  by (simp add: list_update_append)

lemma upd_window0: "(pre @ y # ys)[length pre := v] = pre @ v # ys"
  by simp

lemma upd_window1: "(pre @ y0 # y # ys)[Suc (length pre) := v] = pre @ y0 # v # ys"
  using upd_window [of pre "y0 # y # ys" 1 v] by simp

lemma upd_window2: "(pre @ y0 # y1 # y # ys)[Suc (Suc (length pre)) := v] = pre @ y0 # y1 # v # ys"
  using upd_window [of pre "y0 # y1 # y # ys" 2 v] by (simp add: numeral_2_eq_2)

lemma upd_window3:
  "(pre @ y0 # y1 # y2 # y # ys)[Suc (Suc (Suc (length pre))) := v] = pre @ y0 # y1 # y2 # v # ys"
  using upd_window [of pre "y0 # y1 # y2 # y # ys" 3 v] by (simp add: numeral_3_eq_3)

lemma setInt32_window:
  "setInt32 (pre @ a # b # c # d # post) (length pre) w =
     pre @ ucast (drop_bit 24 w) # ucast (drop_bit 16 w) # ucast (drop_bit 8 w) # ucast w # post"
  by (simp add: setInt32_def upd_window0 upd_window1 upd_window2 upd_window3 numeral_3_eq_3)

lemma setUint16_window:
  "setUint16 (pre @ a # b # post) (length pre) w = pre @ ucast (drop_bit 8 w) # ucast w # post"
  by (simp add: setUint16_def upd_window0 upd_window1)

lemma getUint32_window:
  "getUint32 (pre @ a # b # c # d # post) (length pre) =
     unat a * 16777216 + unat b * 65536 + unat c * 256 + unat d"
  using nth_append_length_plus [of pre "a # b # c # d # post" 1]
        nth_append_length_plus [of pre "a # b # c # d # post" 2]
        nth_append_length_plus [of pre "a # b # c # d # post" 3]
  by (simp add: getUint32_def)

lemma getUint16_window:
  "getUint16 (pre @ a # b # post) (length pre) = unat a * 256 + unat b"
  using nth_append_length_plus [of pre "a # b # post" 1]
  by (simp add: getUint16_def)

lemma set_at_window:
  "length src = length mid \<Longrightarrow> set_at (pre @ mid @ post) src (length pre) = pre @ src @ post"
  by (simp add: set_at_def)

lemma unat_low_byte: "unat (ucast (w :: 32 word) :: byte) = unat w mod 256"
  by (simp add: unsigned_ucast_eq take_bit_eq_mod)

lemma unat_word_div: "unat ((w :: 32 word) div 256) = unat w div 256"
  "unat (w div 65536) = unat w div 65536" "unat (w div 16777216) = unat w div 16777216"
  by (simp_all add: unat_div)

lemma recombine32: 
  fixes x :: nat
  assumes "x < 4294967296"
  shows "x div 16777216 * 16777216 + x div 65536 mod 256 * 65536 + x div 256 mod 256 * 256 + x mod 256 = x"
proof -
  have a: "x div 16777216 mod 256 = x div 16777216" using assms by simp
  have b: "x div 65536 = 256 * (x div 16777216) + x div 65536 mod 256"
    using div_mult2_eq [of x 65536 256] by simp
  have c: "x div 256 = 256 * (x div 65536) + x div 256 mod 256"
    using div_mult2_eq [of x 256 256] by simp
  have d: "x = 256 * (x div 256) + x mod 256" by simp
  show ?thesis using a b c d by linarith
qed

lemma getUint32_setInt32_window:
  "getUint32 (setInt32 (pre @ a # b # c # d # post) (length pre) w) (length pre) = unat w"
proof -
  have "unat w < 4294967296" using unsigned_less [of w] by simp
  then show ?thesis
    by (simp add: setInt32_window getUint32_window drop_bit_eq_div unat_low_byte unat_word_div recombine32)
qed


lemma byte_of_shifted:
  "k \<le> 24 \<Longrightarrow> (ucast (drop_bit k (of_nat m :: 32 word)) :: byte) = of_nat (m div 2 ^ k)"
  by (rule bit_word_eqI) (auto simp: bit_simps simp flip: drop_bit_eq_div)

lemma byte_of_low: "(ucast (of_nat m :: 32 word) :: byte) = of_nat m"
  by (rule bit_word_eqI) (auto simp: bit_simps)

lemma ToInt32_nat: "ToInt32 (Fin (real n)) = of_nat n"
  by (simp add: trunc_def)

lemma high_part: "js_div_4294967296 (js_minus (Fin (real n)) (Fin (real (n mod 4294967296)))) = Fin (real (n div 4294967296))"
proof -
  have "n = 4294967296 * (n div 4294967296) + n mod 4294967296" by simp
  then have "real n = 4294967296 * real (n div 4294967296) + real (n mod 4294967296)"
    by (metis of_nat_add of_nat_mult of_nat_numeral)
  then show ?thesis by simp
qed

lemma setInt32_at:
  "length pre = off \<Longrightarrow> setInt32 (pre @ a # b # c # d # post) off w =
     pre @ ucast (drop_bit 24 w) # ucast (drop_bit 16 w) # ucast (drop_bit 8 w) # ucast w # post"
  using setInt32_window by blast

lemma getUint32_at:
  "length pre = off \<Longrightarrow> getUint32 (pre @ a # b # c # d # post) off =
     unat a * 16777216 + unat b * 65536 + unat c * 256 + unat d"
  using getUint32_window by blast

lemma getUint32_setInt32_at:
  "length pre = off \<Longrightarrow> getUint32 (setInt32 (pre @ a # b # c # d # post) off w) off = unat w"
  using getUint32_setInt32_window by blast

lemma write_u64_window:
  "write_u64 (pre @ [b0, b1, b2, b3, b4, b5, b6, b7] @ post) (length pre) (Fin (real n)) =
     pre @ be64 n @ post"
proof -
  let ?bs = "(pre @ [b0, b1, b2, b3]) @ b4 # b5 # b6 # b7 # post"
  have l: "length (pre @ [b0, b1, b2, b3]) = length pre + 4" by simp
  have lo: "getUint32 (setInt32 ?bs (length pre + 4) (of_nat n)) (length pre + 4) = n mod 4294967296"
    by (simp only: getUint32_setInt32_at [OF l]) (simp add: unat_of_nat take_bit_eq_mod)
  have s1: "setInt32 ?bs (length pre + 4) (of_nat n) =
      pre @ b0 # b1 # b2 # b3 # (ucast (drop_bit 24 (of_nat n :: 32 word)) # ucast (drop_bit 16 (of_nat n :: 32 word)) #
        ucast (drop_bit 8 (of_nat n :: 32 word)) # ucast (of_nat n :: 32 word) # post)"
    by (simp only: setInt32_at [OF l]) simp
  have "write_u64 ?bs (length pre) (Fin (real n)) =
      setInt32 (setInt32 ?bs (length pre + 4) (of_nat n)) (length pre) (of_nat (n div 4294967296))"
    by (simp only: write_u64_def Let_def ToInt32_nat lo high_part)
  also have "\<dots> = pre @ be64 n @ post"
    by (simp only: s1 setInt32_window) (simp add: be64_unfold byte_of_shifted byte_of_low div_mult2_eq [symmetric])
  finally show ?thesis by simp
qed


lemma integer_in_range:
  "strict_eq (Math_floor n) n \<and> \<not> js_lt n (Fin (real lo)) \<and> \<not> js_gt n (Fin (real hi)) \<longleftrightarrow>
     (\<exists>k::nat. lo \<le> k \<and> k \<le> hi \<and> n = Fin (real k))"
proof (cases n)
  case (Fin x)
  show ?thesis
  proof
    assume a: "strict_eq (Math_floor n) n \<and> \<not> js_lt n (Fin (real lo)) \<and> \<not> js_gt n (Fin (real hi))"
    then have i: "real_of_int \<lfloor>x\<rfloor> = x" and l: "real lo \<le> x" and h: "x \<le> real hi"
      using Fin by (auto simp: js_gt_def)
    have "0 \<le> x" using l by (meson of_nat_0_le_iff order_trans)
    then have e: "x = real (nat \<lfloor>x\<rfloor>)" using i by (metis of_int_0_le_iff of_nat_nat)
    have "lo \<le> nat \<lfloor>x\<rfloor>" "nat \<lfloor>x\<rfloor> \<le> hi" using l h e by linarith+
    then show "\<exists>k::nat. lo \<le> k \<and> k \<le> hi \<and> n = Fin (real k)" using e Fin by blast
  next
    assume "\<exists>k::nat. lo \<le> k \<and> k \<le> hi \<and> n = Fin (real k)"
    then show "strict_eq (Math_floor n) n \<and> \<not> js_lt n (Fin (real lo)) \<and> \<not> js_gt n (Fin (real hi))"
      by (auto simp: js_gt_def)
  qed
qed (auto simp: js_gt_def)

lemma write_u64_eq:
  assumes "off + 8 \<le> length bs"
  shows "write_u64 bs off (Fin (real n)) = set_at bs (be64 n) off"
proof -
  from assms obtain pre mid post where bs: "bs = pre @ mid @ post" and l: "length pre = off" "length mid = 8"
    by (rule split_window)
  from l(2) obtain b0 b1 b2 b3 b4 b5 b6 b7 where mid: "mid = [b0, b1, b2, b3, b4, b5, b6, b7]"
    by (rule list8)
  have "length (be64 n) = length mid" by (simp add: be64_def l)
  then have "set_at (pre @ mid @ post) (be64 n) (length pre) = pre @ be64 n @ post"
    by (rule set_at_window)
  then show ?thesis using write_u64_window [of pre b0 b1 b2 b3 b4 b5 b6 b7 post n] bs l mid by simp
qed

lemma read_u64_window:
  "read_safe_u64 (pre @ [b0, b1, b2, b3, b4, b5, b6, b7] @ post) (length pre) =
     u64_at (pre @ [b0, b1, b2, b3, b4, b5, b6, b7] @ post) (length pre)"
proof -
  have l: "length (pre @ [b0, b1, b2, b3]) = length pre + 4" by simp
  have "getUint32 ((pre @ [b0, b1, b2, b3]) @ b4 # b5 # b6 # b7 # post) (length pre + 4) =
      unat b4 * 16777216 + unat b5 * 65536 + unat b6 * 256 + unat b7"
    by (rule getUint32_at [OF l])
  then show ?thesis
    by (simp add: read_safe_u64_def u64_at_def getUint32_window)
qed

lemma unat_byte_less: "unat (b :: byte) < 256"
  using unsigned_less [of b] by simp

lemma safe_check_window:
  "getUint16 (pre @ [b0, b1, b2, b3, b4, b5, b6, b7] @ post) (length pre) > 0x001f \<longleftrightarrow>
     u64_at (pre @ [b0, b1, b2, b3, b4, b5, b6, b7] @ post) (length pre) > 9007199254740991"
  using unat_byte_less [of b2] unat_byte_less [of b3] unat_byte_less [of b4]
        unat_byte_less [of b5] unat_byte_less [of b6] unat_byte_less [of b7]
  by (simp add: u64_at_def getUint16_window) linarith

lemma get_u64:
  assumes "off + 8 \<le> length bs"
  shows "read_safe_u64 bs off = u64_at bs off"
    and "getUint16 bs off > 0x001f \<longleftrightarrow> u64_at bs off > 9007199254740991"
proof -
  from assms obtain pre mid post where bs: "bs = pre @ mid @ post" and l: "length pre = off" "length mid = 8"
    by (rule split_window)
  from l(2) obtain b0 b1 b2 b3 b4 b5 b6 b7 where mid: "mid = [b0, b1, b2, b3, b4, b5, b6, b7]"
    by (rule list8)
  show "read_safe_u64 bs off = u64_at bs off"
    using read_u64_window [of pre b0 b1 b2 b3 b4 b5 b6 b7 post] bs l mid by simp
  show "getUint16 bs off > 0x001f \<longleftrightarrow> u64_at bs off > 9007199254740991"
    using safe_check_window [of pre b0 b1 b2 b3 b4 b5 b6 b7 post] bs l mid by simp
qed

lemma div_step: "k = 2 ^ j * 256 \<Longrightarrow> 256 * ((n::nat) div k) + n div 2 ^ j mod 256 = n div 2 ^ j"
  by (simp add: div_mult2_eq)

lemma u64_at_be64:
  assumes "off + 8 \<le> length bs" "n < 2 ^ 64"
  shows "u64_at (set_at bs (be64 n) off) off = n"
proof -
  have m: "\<And>k. unat (of_nat k :: byte) = k mod 256"
    by (simp add: unat_of_nat take_bit_eq_mod)
  have d: "n div 2 ^ 56 < 256" using assms(2) by (simp add: less_mult_imp_div_less)
  have s1: "256 * (n div 2 ^ 56) + n div 2 ^ 48 mod 256 = n div 2 ^ 48" by (rule div_step) simp
  have s2: "256 * (n div 2 ^ 48) + n div 2 ^ 40 mod 256 = n div 2 ^ 40" by (rule div_step) simp
  have s3: "256 * (n div 2 ^ 40) + n div 2 ^ 32 mod 256 = n div 2 ^ 32" by (rule div_step) simp
  have s4: "256 * (n div 2 ^ 32) + n div 2 ^ 24 mod 256 = n div 2 ^ 24" by (rule div_step) simp
  have s5: "256 * (n div 2 ^ 24) + n div 2 ^ 16 mod 256 = n div 2 ^ 16" by (rule div_step) simp
  have s6: "256 * (n div 2 ^ 16) + n div 2 ^ 8 mod 256 = n div 2 ^ 8" by (rule div_step) simp
  have s7: "256 * (n div 2 ^ 8) + n mod 256 = n" by simp
  have "take 8 (drop off (set_at bs (be64 n) off)) = be64 n"
    using assms(1) by (simp add: set_at_def be64_def)
  then have "u64_at (set_at bs (be64 n) off) off =
      foldl (\<lambda>a b. a * 256 + unat b) 0 (be64 n)" by (simp add: u64_at_def)
  also have "\<dots> = n div 2 ^ 56 mod 256 * 72057594037927936 + n div 2 ^ 48 mod 256 * 281474976710656
      + n div 2 ^ 40 mod 256 * 1099511627776 + n div 2 ^ 32 mod 256 * 4294967296
      + n div 2 ^ 24 mod 256 * 16777216 + n div 2 ^ 16 mod 256 * 65536 + n div 2 ^ 8 mod 256 * 256 + n mod 256"
    by (simp add: be64_unfold m)
  also have "\<dots> = n"
  proof -
    define q7 q6 q5 q4 q3 q2 q1 where "q7 = n div 2 ^ 56" and "q6 = n div 2 ^ 48"
      and "q5 = n div 2 ^ 40" and "q4 = n div 2 ^ 32" and "q3 = n div 2 ^ 24"
      and "q2 = n div 2 ^ 16" and "q1 = n div 2 ^ 8"
    define r7 r6 r5 r4 r3 r2 r1 r0 where "r7 = q7 mod 256" and "r6 = q6 mod 256"
      and "r5 = q5 mod 256" and "r4 = q4 mod 256" and "r3 = q3 mod 256"
      and "r2 = q2 mod 256" and "r1 = q1 mod 256" and "r0 = n mod 256"
    note defs = q7_def q6_def q5_def q4_def q3_def q2_def q1_def
      r7_def r6_def r5_def r4_def r3_def r2_def r1_def r0_def
    have "r7 = q7" using d by (simp add: defs)
    moreover have "256 * q7 + r6 = q6" "256 * q6 + r5 = q5" "256 * q5 + r4 = q4"
      "256 * q4 + r3 = q3" "256 * q3 + r2 = q2" "256 * q2 + r1 = q1" "256 * q1 + r0 = n"
      using s1 s2 s3 s4 s5 s6 s7 by (simp_all only: defs)
    ultimately have "r7 * 72057594037927936 + r6 * 281474976710656 + r5 * 1099511627776 +
        r4 * 4294967296 + r3 * 16777216 + r2 * 65536 + r1 * 256 + r0 = n"
      by linarith
    then show ?thesis by (simp only: defs)
  qed
  finally show ?thesis .
qed

section \<open>The example objects\<close>

lemma empty_tx_eq: "empty_tx = \<lparr>tx_bytes = replicate 150 0, fieldsMap = {}\<rparr>"
  by (simp add: empty_tx_def Transaction_new_def)

lemma genesis_tx_eq: "genesis_tx = \<lparr>tx_bytes = (replicate 150 0)[0 := 0], fieldsMap = {''version''}\<rparr>"
  by (simp add: genesis_tx_def empty_tx_eq Transaction_set_version_def
      Genesis_def DeleteTransitAddress_def js_gt_def setFields_def trunc_def)

lemma basic_tx_eq: "basic_tx = \<lparr>tx_bytes = (replicate 150 0)[0 := 1], fieldsMap = {''version''}\<rparr>"
  by (simp add: basic_tx_def empty_tx_eq Transaction_set_version_def
      Genesis_def DeleteTransitAddress_def js_gt_def setFields_def trunc_def)

lemma byte_21929: "(21929 :: byte) = 0xA9"
  by simp

lemma umi_address_eq: "umi_address = \<lparr>a_bytes = (replicate 34 0)[0 := 0x55, 1 := 0xA9]\<rparr>"
  by (simp add: umi_address_def Address_new_def
      Address_set_version_def versionToPrefix_def Address_Umi_def setUint16_def word_sless_alt trunc_def byte_21929)

lemma examples_built:
  "Transaction_new Undefined = Inr empty_tx"
  "Transaction_set_version empty_tx (Num (Fin 0)) = Inr genesis_tx"
  "Transaction_set_version empty_tx (Num (Fin 1)) = Inr basic_tx"
  "Address_new Undefined = Inr umi_address"
  by (simp_all add: empty_tx_eq genesis_tx_eq basic_tx_eq umi_address_eq Transaction_new_def Transaction_set_version_def
      Genesis_def DeleteTransitAddress_def js_gt_def setFields_def trunc_def Address_new_def
      Address_set_version_def versionToPrefix_def Address_Umi_def setUint16_def word_sless_alt byte_21929)

lemma examples_fields:
  "tx_version genesis_tx = Genesis" "tx_version basic_tx = Basic"
  "fieldsMap genesis_tx = {''version''}" "fieldsMap basic_tx = {''version''}"
  "length (tx_bytes genesis_tx) = 150" "length (tx_bytes basic_tx) = 150"
  "Address_get_version umi_address = Address_Umi"
  by (simp_all add: genesis_tx_eq basic_tx_eq umi_address_eq tx_version_def Genesis_def Basic_def
       Address_get_version_def getUint16_def Address_Umi_def)


section \<open>Prefix codec\<close>

lemma masks: "(0x1F :: 32 word) = mask 5" "(0x3E0 :: 32 word) = push_bit 5 (mask 5)"
  "(0x7C00 :: 32 word) = push_bit 10 (mask 5)" "(0x8000 :: 32 word) = push_bit 15 1"
  "(0x7FFF :: 32 word) = mask 15"
  by (simp_all add: mask_eq_exp_minus_1)

lemma field_c: "(of_nat v :: 32 word) AND 0x1F = of_nat (v mod 32)"
  unfolding masks by (rule bit_word_eqI) (auto simp: bit_simps simp flip: take_bit_eq_mod [of 5, simplified])

lemma field_b: "signed_drop_bit 5 ((of_nat v :: 32 word) AND 0x3E0) = of_nat (v div 32 mod 32)"
  unfolding masks
  by (rule bit_word_eqI) (auto simp: bit_simps simp flip: take_bit_eq_mod [of 5, simplified] drop_bit_eq_div [of 5, simplified])

lemma field_a: "signed_drop_bit 10 ((of_nat v :: 32 word) AND 0x7C00) = of_nat (v div 1024 mod 32)"
  unfolding masks
  by (rule bit_word_eqI) (auto simp: bit_simps simp flip: take_bit_eq_mod [of 5, simplified] drop_bit_eq_div [of 10, simplified])

lemma bit_0x8000: "bit (0x8000 :: 32 word) n \<longleftrightarrow> n = 15"
proof -
  have e: "(0x8000 :: 32 word) = 2 ^ 15" by simp
  show ?thesis unfolding e by (simp only: bit_exp_iff) auto
qed

lemma and_bit15: "(w :: 32 word) AND 0x8000 = 0x8000 \<longleftrightarrow> bit w 15"
proof
  assume "w AND 0x8000 = 0x8000"
  then have "bit (w AND 0x8000) 15 = bit (0x8000 :: 32 word) 15" by simp
  then show "bit w 15" by (simp only: bit_and_iff bit_0x8000) simp
next
  assume a: "bit w 15"
  show "w AND 0x8000 = 0x8000"
  proof (rule bit_word_eqI)
    fix n
    show "bit (w AND 0x8000) n = bit (0x8000 :: 32 word) n"
      using a by (simp only: bit_and_iff bit_0x8000) auto
  qed
qed

lemma high_bit: "(of_nat v :: 32 word) AND 0x8000 = 0x8000 \<longleftrightarrow> odd (v div 32768)"
proof -
  have "bit (of_nat v :: 32 word) 15 \<longleftrightarrow> bit v 15" by (simp add: bit_simps)
  also have "\<dots> \<longleftrightarrow> odd (v div 32768)" by (simp add: bit_iff_odd)
  finally show ?thesis by (simp only: and_bit15)
qed

lemma small_word: "k < 32 \<Longrightarrow> sint (of_nat k :: 32 word) = int k" "k < 32 \<Longrightarrow> unat (of_nat k + 96 :: 32 word) = k + 96"
   apply (simp add: signed_of_nat signed_take_bit_int_eq_self)
  apply (simp add: unat_word_ariths unat_of_nat take_bit_nat_eq_self)
  done

lemma versionToPrefix_nat:
  "versionToPrefix (Num (Fin (real v))) =
     (if v = 0 then Inr (js ''genesis'')
      else if odd (v div 32768) then Inl (Error ''incorrect version - first bit must be zero'')
      else if v div 1024 mod 32 < 1 \<or> 26 < v div 1024 mod 32
        then Inl (Error ''incorrect version - first char'')
      else if v div 32 mod 32 < 1 \<or> 26 < v div 32 mod 32
        then Inl (Error ''incorrect version - second char'')
      else if v mod 32 < 1 \<or> 26 < v mod 32
        then Inl (Error ''incorrect version - third char'')
      else Inr [v div 1024 mod 32 + 96, v div 32 mod 32 + 96, v mod 32 + 96])"
  by (simp add: versionToPrefix_def ToInt32_nat field_a field_b field_c high_bit word_sless_alt small_word
      del: ToInt32.simps)


lemma js_genesis: "js ''genesis'' = [103, 101, 110, 101, 115, 105, 115]"
  by (simp add: js_def)

lemma nat_fields: "nat (int a * 1024 + int b * 32 + int c) = a * 1024 + b * 32 + c"
proof -
  have "int a * 1024 + int b * 32 + int c = int (a * 1024 + b * 32 + c)" by simp
  then show ?thesis by (simp only: nat_int)
qed


lemma prefixToVersion_letters:
  assumes "1 \<le> a" "a \<le> 26" "1 \<le> b" "b \<le> 26" "1 \<le> c" "c \<le> 26"
  shows "prefixToVersion (Str [a + 96, b + 96, c + 96]) = Inr (a * 1024 + b * 32 + c)"
proof -
  have g: "[a + 96, b + 96, c + 96] \<noteq> js ''genesis''" by (simp add: js_genesis)
  have i: "int (a + 96) - 96 = int a" "int (b + 96) - 96 = int b" "int (c + 96) - 96 = int c"
    by simp_all
  show ?thesis
    unfolding prefixToVersion_def
    using assms g by (simp add: i nat_fields Let_def del: of_nat_add)
qed

lemma div_mod_step: "(c::nat) * (n div (b * c)) + n div b mod c = n div b"
  by (simp add: div_mult2_eq)

lemma even_below_2: "even (n::nat) \<Longrightarrow> n < 2 \<Longrightarrow> n = 0"
  by presburger

lemma fields_recombine:
  assumes e: "even (v div 32768)" and l: "v < 65536"
  shows "v div 1024 mod 32 * 1024 + v div 32 mod 32 * 32 + v mod 32 = (v::nat)"
proof -
  have "v div 32768 < 2" using l by (simp add: less_mult_imp_div_less)
  with e have "v div 32768 = 0" by (rule even_below_2)
  then have s: "v < 32768" by (simp add: div_eq_0_iff)
  define q p r1 r0 where "q = v div 1024" and "p = v div 32" and "r1 = v div 32 mod 32"
    and "r0 = v mod 32"
  have "q < 32" using s by (simp add: q_def less_mult_imp_div_less)
  then have a: "v div 1024 mod 32 = q" by (simp add: q_def)
  have b: "32 * q + r1 = p"
    using div_mod_step [of 32 v 32] by (simp add: q_def r1_def p_def)
  have c: "32 * p + r0 = v" by (simp add: r0_def p_def)
  have "q * 1024 + r1 * 32 + r0 = v" using b c by linarith
  then show ?thesis by (simp only: a r1_def r0_def)
qed

lemma valid_21929: "valid_version 21929"
  by (simp add: valid_version_def)

lemma invalid_65534: "\<not> valid_version 65534"
  by (simp add: valid_version_def)

lemma aaa: "versionToPrefix (Num (Fin (real 66593))) = Inr [97, 97, 97]"
  by (simp only: versionToPrefix_nat) simp

lemma roundtrip_16_bit:
  "v < 65536 \<longrightarrow>
     (valid_version v \<longrightarrow> roundtrip (Num (Fin (real v))) = Inr v) \<and>
     (\<not> valid_version v \<longrightarrow>
        isl (versionToPrefix (Num (Fin (real v)))) \<and> isl (roundtrip (Num (Fin (real v)))))"
proof (intro impI conjI)
  assume l: "v < 65536" and ok: "valid_version v"
  show "roundtrip (Num (Fin (real v))) = Inr v"
  proof (cases "v = 0")
    case True
    then show ?thesis
      using versionToPrefix_nat [of 0] by (simp add: roundtrip_def prefixToVersion_def)
  next
    case False
    with ok have f: "even (v div 32768)" "1 \<le> v div 1024 mod 32" "v div 1024 mod 32 \<le> 26"
      "1 \<le> v div 32 mod 32" "v div 32 mod 32 \<le> 26" "1 \<le> v mod 32" "v mod 32 \<le> 26"
      by (simp_all add: valid_version_def)
    have "roundtrip (Num (Fin (real v))) =
        prefixToVersion (Str [v div 1024 mod 32 + 96, v div 32 mod 32 + 96, v mod 32 + 96])"
      using False f by (simp add: roundtrip_def versionToPrefix_nat)
    also have "\<dots> = Inr (v div 1024 mod 32 * 1024 + v div 32 mod 32 * 32 + v mod 32)"
      using f by (intro prefixToVersion_letters) simp_all
    finally show ?thesis by (simp only: fields_recombine [OF f(1) l])
  qed
next
  assume "\<not> valid_version v"
  then show "isl (versionToPrefix (Num (Fin (real v))))"
    by (auto simp: valid_version_def versionToPrefix_nat)
  then show "isl (roundtrip (Num (Fin (real v))))"
    by (auto simp: roundtrip_def isl_def)
qed

lemma versionToPrefix_not_integer:
  assumes "\<nexists>i::int. x = Num (Fin (of_int i))"
  shows "isl (versionToPrefix x)"
proof (cases x)
  case (Num v)
  show ?thesis
  proof (cases v)
    case (Fin r)
    have "of_int \<lfloor>r\<rfloor> \<noteq> r" using assms Num Fin by metis
    then show ?thesis using Num Fin by (simp add: versionToPrefix_def)
  qed (simp_all add: Num versionToPrefix_def word_sless_alt)
qed (simp_all add: versionToPrefix_def)

lemma roundtrip_fails: "isl (versionToPrefix x) \<Longrightarrow> isl (roundtrip x)"
  by (auto simp: roundtrip_def isl_def)

lemma half_not_integer: "\<nexists>i::int. Num (Fin (1 / 2)) = Num (Fin (of_int i))"
proof
  assume "\<exists>i::int. Num (Fin (1 / 2)) = Num (Fin (of_int i))"
  then obtain i :: int where "(1 / 2 :: real) = of_int i" by auto
  then have "(of_int (2 * i) :: real) = of_int 1" by simp
  then have "2 * i = 1" by (simp only: of_int_eq_iff)
  then show False by presburger
qed

text \<open>
  C4. A version is a 16-bit word, the first two bytes of an address. For every \<open>v\<close>
  from 0 to 65535: if \<open>v\<close> is 0, or its high bit (bit 15) is zero and its three 5-bit
  fields are each in 1..26, then \<open>prefixToVersion(versionToPrefix(v)) = v\<close>; for every
  other \<open>v\<close>, \<open>versionToPrefix(v)\<close> and the composition both fail with an error.
  So do they for every argument that is not an integer: a value that is not a number,
  \<open>NaN\<close>, an infinity, a number with a fractional part.
\<close>

theorem prefix_codec_roundtrip:
  "(v < 65536 \<longrightarrow>
      (valid_version v \<longrightarrow> roundtrip (Num (Fin (real v))) = Inr v) \<and>
      (\<not> valid_version v \<longrightarrow>
         isl (versionToPrefix (Num (Fin (real v)))) \<and> isl (roundtrip (Num (Fin (real v)))))) \<and>
   ((\<nexists>i::int. x = Num (Fin (of_int i))) \<longrightarrow>
      isl (versionToPrefix x) \<and> isl (roundtrip x))"
  using roundtrip_16_bit [of v] versionToPrefix_not_integer [of x] roundtrip_fails [of x]
  by blast

theorem prefix_codec_witness:
  "(21929::nat) < 65536 \<and> valid_version 21929 \<and> roundtrip (Num (Fin (real 21929))) = Inr 21929 \<and>
   (65534::nat) < 65536 \<and> \<not> valid_version 65534 \<and>
   isl (versionToPrefix (Num (Fin (real 65534)))) \<and> isl (roundtrip (Num (Fin (real 65534)))) \<and>
   isl (versionToPrefix (Num NaN)) \<and> isl (roundtrip (Num PInf)) \<and>
   isl (versionToPrefix (Str (js ''aaa''))) \<and> isl (roundtrip (Num (Fin (1 / 2))))"
proof -
  have l: "(21929::nat) < 65536" "(65534::nat) < 65536" by simp_all
  have a: "roundtrip (Num (Fin (real 21929))) = Inr 21929"
    using prefix_codec_roundtrip [of 21929] valid_21929 l by blast
  have b: "isl (versionToPrefix (Num (Fin (real 65534)))) \<and> isl (roundtrip (Num (Fin (real 65534))))"
    using prefix_codec_roundtrip [of 65534] invalid_65534 l by blast
  have c: "isl (versionToPrefix (Num NaN)) \<and> isl (roundtrip (Num PInf)) \<and>
   isl (versionToPrefix (Str (js ''aaa''))) \<and> isl (roundtrip (Num (Fin (1 / 2))))"
    using prefix_codec_roundtrip [of 0 "Num NaN"] prefix_codec_roundtrip [of 0 "Num PInf"]
      prefix_codec_roundtrip [of 0 "Str (js ''aaa'')"]
      prefix_codec_roundtrip [of 0 "Num (Fin (1 / 2))"] half_not_integer
    by simp
  show ?thesis
    using a b c l valid_21929 invalid_65534 by blast
qed

text \<open>
  The bound of 16 bits is needed: \<open>versionToPrefix\<close> tests bit 15 and the three fields
  of \<open>ToInt32(v)\<close> and nothing above them, so for a number with higher bits set, such as
  66593 = 65536 + 1057, it returns the prefix of the low 16 bits.
\<close>

lemma versionToPrefix_above_16_bits:
  "versionToPrefix (Num (Fin (real 66593))) = Inr (js ''aaa'') \<and>
   roundtrip (Num (Fin (real 66593))) = Inr 1057"
proof -
  have p: "prefixToVersion (Str [1 + 96, 1 + 96, 1 + 96]) = Inr (1 * 1024 + 1 * 32 + 1)"
    by (rule prefixToVersion_letters) simp_all
  show ?thesis
    using p by (simp add: roundtrip_def aaa js_def del: of_nat_numeral)
qed


section \<open>Transaction accessors\<close>

lemma checkFields_1:
  "checkFields tx [f] = (if f \<in> fieldsMap tx then Inr () else Inl (Error (f @ '' must be set'')))"
  by simp

lemma get_version_eq:
  "Transaction_get_version tx =
     (if ''version'' \<in> fieldsMap tx then Inr (tx_version tx) else Inl (Error ''version must be set''))"
  by (simp add: Transaction_get_version_def tx_version_def)

lemma set_version_result:
  "Transaction_set_version tx v =
     (if ''version'' \<in> fieldsMap tx then Inl (Error ''could not update version'')
      else case v of
        Num n \<Rightarrow>
          if \<not> strict_eq (Math_floor n) n then Inl (Error ''version type must be integer'')
          else if \<not> (\<exists>k::nat. k \<le> 7 \<and> n = Fin (real k)) then Inl (Error ''incorrect version'')
          else Inr (tx\<lparr>tx_bytes := (tx_bytes tx)[0 := ucast (ToInt32 n)],
                      fieldsMap := insert ''version'' (fieldsMap tx)\<rparr>)
      | _ \<Rightarrow> Inl (Error ''version type must be number''))"
  using integer_in_range [of _ 0 7]
  by (auto simp: Transaction_set_version_def Genesis_def DeleteTransitAddress_def setFields_def
      split: jsvalue.splits)

text \<open>
  C9. The version setter accepts exactly the integer numbers 0 to 7: every other argument
  (no number, no integer, or outside 0..7) is rejected with an error on every
  transaction, also one whose version was never set; on a transaction whose version is
  not set, each of 0..7 is accepted, stored in byte 0, and \<open>version\<close> is marked.
\<close>

theorem version_setter_accepts_exactly_0_to_7:
  "(\<not> (\<exists>k::nat. k \<le> 7 \<and> v = Num (Fin (real k))) \<longrightarrow> isl (Transaction_set_version tx v)) \<and>
   (''version'' \<notin> fieldsMap tx \<and> k \<le> 7 \<longrightarrow>
      Transaction_set_version tx (Num (Fin (real k))) =
        Inr (tx\<lparr>tx_bytes := (tx_bytes tx)[0 := of_nat k],
                fieldsMap := insert ''version'' (fieldsMap tx)\<rparr>))"
proof (intro conjI impI)
  assume "\<not> (\<exists>k::nat. k \<le> 7 \<and> v = Num (Fin (real k)))"
  then show "isl (Transaction_set_version tx v)"
    by (auto simp: set_version_result split: jsvalue.splits)
next
  assume a: "''version'' \<notin> fieldsMap tx \<and> k \<le> 7"
  have "\<exists>j::nat. j \<le> 7 \<and> real k = real j" using a by blast
  with a show "Transaction_set_version tx (Num (Fin (real k))) =
        Inr (tx\<lparr>tx_bytes := (tx_bytes tx)[0 := of_nat k],
                fieldsMap := insert ''version'' (fieldsMap tx)\<rparr>)"
    by (simp add: set_version_result byte_of_low trunc_def)
qed

theorem version_setter_witness:
  "isl (Transaction_set_version empty_tx (Num NaN)) \<and>
   Transaction_set_version empty_tx (Num (Fin (real 1))) =
     Inr (empty_tx\<lparr>tx_bytes := (tx_bytes empty_tx)[0 := of_nat 1],
            fieldsMap := insert ''version'' (fieldsMap empty_tx)\<rparr>)"
  using version_setter_accepts_exactly_0_to_7 [of "Num NaN" empty_tx 1]
  by (simp add: empty_tx_eq)



text \<open>
  C5, as the code has it. The recipient setter accepts an address exactly when the
  version is set, the transaction is no CreateStructure or UpdateStructure, the address is
  not a Genesis-version address, it is a Umi-version address if the transaction is
  Genesis, and it is a Umi-version address only if the transaction is Genesis or Basic.
  An accepted recipient is therefore never a Genesis-version address, whatever the
  transaction's version; Umi is required for Genesis, permitted for Basic and rejected
  for the other versions.
\<close>

theorem recipient_setter_accepts:
  "(\<exists>tx'. Transaction_set_recipient tx (AddressObj a) = Inr tx') \<longleftrightarrow>
     ''version'' \<in> fieldsMap tx \<and>
     tx_version tx \<noteq> CreateStructure \<and> tx_version tx \<noteq> UpdateStructure \<and>
     Address_get_version a \<noteq> Address_Genesis \<and>
     (tx_version tx = Genesis \<longrightarrow> Address_get_version a = Address_Umi) \<and>
     (Address_get_version a = Address_Umi \<longrightarrow> tx_version tx = Genesis \<or> tx_version tx = Basic)"
  by (auto simp: Transaction_set_recipient_def get_version_eq)

theorem recipient_setter_witness:
  "(\<exists>tx'. Transaction_set_recipient genesis_tx (AddressObj umi_address) = Inr tx') \<and>
   ''version'' \<in> fieldsMap genesis_tx \<and> tx_version genesis_tx = Genesis \<and>
   Address_get_version umi_address = Address_Umi"
  using recipient_setter_accepts [of genesis_tx umi_address]
  by (simp add: examples_fields Genesis_def CreateStructure_def UpdateStructure_def
      Address_Genesis_def Address_Umi_def)

text \<open>
  The claim as stated fails on a Genesis transaction: the setter accepts the Umi address
  \<open>new Address()\<close>, which is no Genesis-version address.
\<close>

theorem recipient_genesis_iff_counterexample:
  "Transaction_new Undefined = Inr empty_tx \<and>
   Transaction_set_version empty_tx (Num (Fin 0)) = Inr genesis_tx \<and>
   Address_new Undefined = Inr umi_address \<and>
   \<not> isl (Transaction_set_recipient genesis_tx (AddressObj umi_address)) \<and>
   Transaction_get_version genesis_tx = Inr Genesis \<and>
   Address_get_version umi_address \<noteq> Address_Genesis"
  by (simp add: examples_built examples_fields Transaction_set_recipient_def get_version_eq
      Genesis_def CreateStructure_def UpdateStructure_def Address_Genesis_def Address_Umi_def)

lemma zero_tx_eq:
  "zero_tx = \<lparr>tx_bytes = replicate 150 0,
     fieldsMap = {''version'', ''sender'', ''recipient'', ''value'', ''prefix'',
                  ''name'', ''profitPercent'', ''feePercent'', ''nonce'', ''signature''}\<rparr>"
  by (simp add: zero_tx_def Transaction_new_def setFields_def set_at_def)

lemma zero_tx_built: "Transaction_new (Uint8Array (replicate 150 0)) = Inr zero_tx"
  by (simp add: zero_tx_eq Transaction_new_def setFields_def set_at_def)

lemma foldl_zero: "foldl (\<lambda>a b. a * 256 + unat b) 0 (replicate k (0::byte)) = 0"
  by (induction k) simp_all

lemma u64_at_zero: "off + 8 \<le> n \<Longrightarrow> u64_at (replicate n 0) off = 0"
  by (simp add: u64_at_def foldl_zero)

lemma set_value_result:
  assumes "''version'' \<in> fieldsMap tx" "tx_version tx = Genesis \<or> tx_version tx = Basic"
  shows "Transaction_set_value tx arg =
     (case arg of
        Num n \<Rightarrow>
          if \<not> strict_eq (Math_floor n) n then Inl (Error ''value must be integer'')
          else if \<not> (\<exists>k::nat. 1 \<le> k \<and> k \<le> 9007199254740991 \<and> n = Fin (real k))
            then Inl (Error ''value must be between 1 and 9007199254740991'')
          else Inr (tx\<lparr>tx_bytes := write_u64 (tx_bytes tx) 69 n,
                      fieldsMap := insert ''value'' (fieldsMap tx)\<rparr>)
      | _ \<Rightarrow> Inl (Error ''value must be number''))"
  using assms integer_in_range [of _ 1 9007199254740991]
  by (auto simp: Transaction_set_value_def get_version_eq setFields_def split: jsvalue.splits)

lemma set_nonce_result:
  "Transaction_set_nonce tx arg =
     (case arg of
        Num n \<Rightarrow>
          if \<not> strict_eq (Math_floor n) n then Inl (Error ''nonce type must be integer'')
          else if \<not> (\<exists>k::nat. k \<le> 9007199254740991 \<and> n = Fin (real k))
            then Inl (Error ''nonce value must be between 0 and 9007199254740991'')
          else Inr (tx\<lparr>tx_bytes := write_u64 (tx_bytes tx) 77 n,
                      fieldsMap := insert ''nonce'' (fieldsMap tx)\<rparr>)
      | _ \<Rightarrow> Inl (Error ''nonce type must be number''))"
  using integer_in_range [of _ 0 9007199254740991]
  by (auto simp: Transaction_set_nonce_def setFields_def split: jsvalue.splits)

lemma get_value_result:
  assumes "''version'' \<in> fieldsMap tx" "tx_version tx = Genesis \<or> tx_version tx = Basic"
    "''value'' \<in> fieldsMap tx" "length (tx_bytes tx) = 150"
  shows "Transaction_get_value tx =
     (if u64_at (tx_bytes tx) 69 > 9007199254740991 then Inl (Error ''value is not safe integer'')
      else Inr (u64_at (tx_bytes tx) 69))"
  using assms get_u64 [of 69 "tx_bytes tx"]
  by (auto simp: Transaction_get_value_def get_version_eq)

lemma get_nonce_result:
  assumes "''nonce'' \<in> fieldsMap tx" "length (tx_bytes tx) = 150"
  shows "Transaction_get_nonce tx =
     (if u64_at (tx_bytes tx) 77 > 9007199254740991 then Inl (Error ''nonce is not safe integer'')
      else Inr (u64_at (tx_bytes tx) 77))"
  using assms get_u64 [of 77 "tx_bytes tx"]
  by (auto simp: Transaction_get_nonce_def)

text \<open>
  C6, as the code has it. On a Genesis or Basic transaction the value setter rejects every
  argument that is not an integer in \<open>[1, 2^53-1]\<close> (0 included) and accepts every
  integer in that interval, writing it as eight big-endian bytes at offset 69. The value
  getter (with \<open>value\<close> set) and the nonce getter (with \<open>nonce\<close> set) fail with
  their "not safe integer" error exactly when the big-endian u64 stored at 69 (at 77)
  exceeds \<open>2^53-1\<close>, which is when the first two stored bytes as a big-endian u16 exceed
  \<open>0x001f\<close>, and return the stored integer otherwise.
\<close>

theorem value_and_nonce_safe_integers:
  "length (tx_bytes tx) = 150 \<longrightarrow>
   (''version'' \<in> fieldsMap tx \<and> (tx_version tx = Genesis \<or> tx_version tx = Basic) \<longrightarrow>
      (isl (Transaction_set_value tx arg) \<longleftrightarrow>
         \<not> (\<exists>k::nat. 1 \<le> k \<and> k \<le> 9007199254740991 \<and> arg = Num (Fin (real k)))) \<and>
      (1 \<le> n \<and> n \<le> 9007199254740991 \<longrightarrow>
         Transaction_set_value tx (Num (Fin (real n))) =
           Inr (tx\<lparr>tx_bytes := set_at (tx_bytes tx) (be64 n) 69,
                   fieldsMap := insert ''value'' (fieldsMap tx)\<rparr>)) \<and>
      (''value'' \<in> fieldsMap tx \<longrightarrow>
         Transaction_get_value tx =
           (if u64_at (tx_bytes tx) 69 > 9007199254740991
            then Inl (Error ''value is not safe integer'')
            else Inr (u64_at (tx_bytes tx) 69)))) \<and>
   (''nonce'' \<in> fieldsMap tx \<longrightarrow>
      Transaction_get_nonce tx =
        (if u64_at (tx_bytes tx) 77 > 9007199254740991
         then Inl (Error ''nonce is not safe integer'')
         else Inr (u64_at (tx_bytes tx) 77))) \<and>
   (u64_at (tx_bytes tx) 69 > 9007199254740991 \<longleftrightarrow> getUint16 (tx_bytes tx) 69 > 0x001f) \<and>
   (u64_at (tx_bytes tx) 77 > 9007199254740991 \<longleftrightarrow> getUint16 (tx_bytes tx) 77 > 0x001f)"
proof (intro impI conjI)
  assume l: "length (tx_bytes tx) = 150"
  show "(u64_at (tx_bytes tx) 69 > 9007199254740991) = (getUint16 (tx_bytes tx) 69 > 0x001f)"
    using l get_u64 (2) [of 69 "tx_bytes tx"] by simp
  show "(u64_at (tx_bytes tx) 77 > 9007199254740991) = (getUint16 (tx_bytes tx) 77 > 0x001f)"
    using l get_u64 (2) [of 77 "tx_bytes tx"] by simp
  {
    assume n: "''nonce'' \<in> fieldsMap tx"
    show "Transaction_get_nonce tx =
        (if u64_at (tx_bytes tx) 77 > 9007199254740991
         then Inl (Error ''nonce is not safe integer'')
         else Inr (u64_at (tx_bytes tx) 77))"
      using n l by (rule get_nonce_result)
  }
  assume v: "''version'' \<in> fieldsMap tx \<and> (tx_version tx = Genesis \<or> tx_version tx = Basic)"
  then have v1: "''version'' \<in> fieldsMap tx" and v2: "tx_version tx = Genesis \<or> tx_version tx = Basic"
    by simp_all
  show "isl (Transaction_set_value tx arg) \<longleftrightarrow>
         \<not> (\<exists>k::nat. 1 \<le> k \<and> k \<le> 9007199254740991 \<and> arg = Num (Fin (real k)))"
    by (auto simp: set_value_result [OF v1 v2] split: jsvalue.splits)
  {
    assume n: "1 \<le> n \<and> n \<le> 9007199254740991"
    then have "\<exists>k::nat. 1 \<le> k \<and> k \<le> 9007199254740991 \<and> real n = real k" by blast
    then show "Transaction_set_value tx (Num (Fin (real n))) =
           Inr (tx\<lparr>tx_bytes := set_at (tx_bytes tx) (be64 n) 69,
                   fieldsMap := insert ''value'' (fieldsMap tx)\<rparr>)"
      using l by (simp add: set_value_result [OF v1 v2] write_u64_eq del: of_nat_eq_iff)
  }
  assume "''value'' \<in> fieldsMap tx"
  then show "Transaction_get_value tx =
           (if u64_at (tx_bytes tx) 69 > 9007199254740991
            then Inl (Error ''value is not safe integer'')
            else Inr (u64_at (tx_bytes tx) 69))"
    using v1 v2 l get_value_result by blast
qed

theorem value_and_nonce_witness:
  "length (tx_bytes zero_tx) = 150 \<and> ''version'' \<in> fieldsMap zero_tx \<and>
   tx_version zero_tx = Genesis \<and> ''value'' \<in> fieldsMap zero_tx \<and>
   ''nonce'' \<in> fieldsMap zero_tx \<and>
   isl (Transaction_set_value zero_tx (Num (Fin 0))) \<and>
   Transaction_set_value zero_tx (Num (Fin (real 42))) =
     Inr (zero_tx\<lparr>tx_bytes := set_at (tx_bytes zero_tx) (be64 42) 69,
            fieldsMap := insert ''value'' (fieldsMap zero_tx)\<rparr>) \<and>
   Transaction_get_value zero_tx = Inr 0 \<and>
   Transaction_get_nonce zero_tx = Inr 0"
  using value_and_nonce_safe_integers [of zero_tx "Num (Fin 0)" 42]
  by (simp add: zero_tx_eq tx_version_def Genesis_def u64_at_zero)

text \<open>
  The claim as stated fails at 0: it lies in \<open>[0, 2^53-1]\<close> and the value setter of
  a Basic transaction rejects it.
\<close>

theorem value_zero_counterexample:
  "Transaction_set_version empty_tx (Num (Fin 1)) = Inr basic_tx \<and>
   Transaction_set_value basic_tx (Num (Fin 0)) =
     Inl (Error ''value must be between 1 and 9007199254740991'')"
  by (simp add: examples_built examples_fields Transaction_set_value_def get_version_eq
      Genesis_def Basic_def)

lemma gate_closed:
  assumes "''version'' \<notin> fieldsMap tx"
  shows "Transaction_get_version tx = Inl (Error ''version must be set'')"
    "Transaction_get_recipient tx = Inl (Error ''version must be set'')"
    "Transaction_get_value tx = Inl (Error ''version must be set'')"
    "Transaction_get_prefix tx = Inl (Error ''version must be set'')"
    "Transaction_get_name tx = Inl (Error ''version must be set'')"
    "Transaction_get_profitPercent tx = Inl (Error ''version must be set'')"
    "Transaction_get_feePercent tx = Inl (Error ''version must be set'')"
    "Transaction_set_sender tx a = Inl (Error ''version must be set'')"
    "Transaction_set_recipient tx a = Inl (Error ''version must be set'')"
    "Transaction_set_value tx a = Inl (Error ''version must be set'')"
    "Transaction_set_prefix tx a = Inl (Error ''version must be set'')"
    "Transaction_set_name tx a = Inl (Error ''version must be set'')"
    "Transaction_set_profitPercent tx a = Inl (Error ''version must be set'')"
    "Transaction_set_feePercent tx a = Inl (Error ''version must be set'')"
    "Transaction_set_signature tx a = Inl (Error ''version must be set'')"
  using assms
  by (simp_all add: Transaction_get_version_def Transaction_get_recipient_def Transaction_get_value_def
      Transaction_get_prefix_def Transaction_get_name_def Transaction_get_profitPercent_def
      Transaction_get_feePercent_def Transaction_set_sender_def Transaction_set_recipient_def
      Transaction_set_value_def Transaction_set_prefix_def Transaction_set_name_def
      Transaction_set_profitPercent_def Transaction_set_feePercent_def Transaction_set_signature_def)

lemma own_field_unset:
  "''sender'' \<notin> fieldsMap tx \<Longrightarrow> Transaction_get_sender tx = Inl (Error ''sender must be set'')"
  "''nonce'' \<notin> fieldsMap tx \<Longrightarrow> Transaction_get_nonce tx = Inl (Error ''nonce must be set'')"
  "''signature'' \<notin> fieldsMap tx \<Longrightarrow> Transaction_get_signature tx = Inl (Error ''signature must be set'')"
  by (simp_all add: Transaction_get_sender_def Transaction_get_nonce_def Transaction_get_signature_def)

lemma Address_new_no_gate: "Address_new v \<noteq> Inl (Error ''version must be set'')"
  by (auto simp: Address_new_def Address_set_version_def versionToPrefix_def Let_def
      split: jsvalue.splits jsnum.splits if_splits)

lemma versionToPrefix_no_gate: "versionToPrefix v \<noteq> Inl (Error ''version must be set'')"
  by (auto simp: versionToPrefix_def Let_def split: jsvalue.splits if_splits)

lemma prefixToVersion_no_gate: "prefixToVersion v \<noteq> Inl (Error ''version must be set'')"
  by (auto simp: prefixToVersion_def Let_def split: jsvalue.splits if_splits)

lemma PublicKey_new_no_gate: "PublicKey_new v \<noteq> Inl (Error ''version must be set'')"
  by (auto simp: PublicKey_new_def split: jsvalue.splits if_splits)

lemma gate_open_getters:
  assumes "''version'' \<in> fieldsMap tx"
  shows "Transaction_get_version tx \<noteq> Inl (Error ''version must be set'')"
    "Transaction_get_recipient tx \<noteq> Inl (Error ''version must be set'')"
    "Transaction_get_value tx \<noteq> Inl (Error ''version must be set'')"
    "Transaction_get_prefix tx \<noteq> Inl (Error ''version must be set'')"
    "Transaction_get_name tx \<noteq> Inl (Error ''version must be set'')"
    "Transaction_get_profitPercent tx \<noteq> Inl (Error ''version must be set'')"
    "Transaction_get_feePercent tx \<noteq> Inl (Error ''version must be set'')"
  using assms Address_new_no_gate versionToPrefix_no_gate
  by (auto simp: get_version_eq Transaction_get_recipient_def Transaction_get_value_def
      Transaction_get_prefix_def Transaction_get_name_def Transaction_get_profitPercent_def
      Transaction_get_feePercent_def)

lemma gate_open_set_sender:
  "''version'' \<in> fieldsMap tx \<Longrightarrow> Transaction_set_sender tx a \<noteq> Inl (Error ''version must be set'')"
  by (auto simp: get_version_eq Transaction_set_sender_def split: jsvalue.splits)

lemma gate_open_set_recipient:
  "''version'' \<in> fieldsMap tx \<Longrightarrow> Transaction_set_recipient tx a \<noteq> Inl (Error ''version must be set'')"
  by (auto simp: get_version_eq Transaction_set_recipient_def split: jsvalue.splits)

lemma gate_open_set_value:
  "''version'' \<in> fieldsMap tx \<Longrightarrow> Transaction_set_value tx a \<noteq> Inl (Error ''version must be set'')"
  by (auto simp: get_version_eq Transaction_set_value_def split: jsvalue.splits)

lemma gate_open_set_prefix:
  "''version'' \<in> fieldsMap tx \<Longrightarrow> Transaction_set_prefix tx a \<noteq> Inl (Error ''version must be set'')"
  using prefixToVersion_no_gate [of a]
  by (auto simp: get_version_eq Transaction_set_prefix_def split: sum.splits)

lemma gate_open_set_name:
  "''version'' \<in> fieldsMap tx \<Longrightarrow> Transaction_set_name tx a \<noteq> Inl (Error ''version must be set'')"
  by (auto simp: get_version_eq Transaction_set_name_def Let_def split: jsvalue.splits)

lemma gate_open_set_profitPercent:
  "''version'' \<in> fieldsMap tx \<Longrightarrow> Transaction_set_profitPercent tx a \<noteq> Inl (Error ''version must be set'')"
  by (auto simp: get_version_eq Transaction_set_profitPercent_def split: jsvalue.splits)

lemma gate_open_set_feePercent:
  "''version'' \<in> fieldsMap tx \<Longrightarrow> Transaction_set_feePercent tx a \<noteq> Inl (Error ''version must be set'')"
  by (auto simp: get_version_eq Transaction_set_feePercent_def split: jsvalue.splits)

lemma signatureLength_no_gate: "sender_signatureLength tx \<noteq> Inl (Error ''version must be set'')"
  using Address_new_no_gate PublicKey_new_no_gate
  by (auto simp: sender_signatureLength_def Transaction_get_sender_def Address_get_publicKey_def
      split: sum.splits)

lemma gate_open_set_signature:
  "''version'' \<in> fieldsMap tx \<Longrightarrow> Transaction_set_signature tx a \<noteq> Inl (Error ''version must be set'')"
  using signatureLength_no_gate [of tx]
  by (auto simp: Transaction_set_signature_def split: jsvalue.splits sum.splits)


lemma length_set_at: "off + length src \<le> length bs \<Longrightarrow> length (set_at bs src off) = length bs"
  by (simp add: set_at_def)

lemma length_be64: "length (be64 n) = 8"
  by (simp add: be64_def)

lemma set_nonce_accepts:
  assumes "n \<le> 9007199254740991" "length (tx_bytes tx) = 150"
  shows "Transaction_set_nonce tx (Num (Fin (real n))) =
      Inr (tx\<lparr>tx_bytes := set_at (tx_bytes tx) (be64 n) 77,
              fieldsMap := insert ''nonce'' (fieldsMap tx)\<rparr>)"
    and "Transaction_get_nonce (tx\<lparr>tx_bytes := set_at (tx_bytes tx) (be64 n) 77,
              fieldsMap := insert ''nonce'' (fieldsMap tx)\<rparr>) = Inr n"
proof -
  have "\<exists>k::nat. k \<le> 9007199254740991 \<and> real n = real k" using assms(1) by blast
  then show "Transaction_set_nonce tx (Num (Fin (real n))) =
      Inr (tx\<lparr>tx_bytes := set_at (tx_bytes tx) (be64 n) 77,
              fieldsMap := insert ''nonce'' (fieldsMap tx)\<rparr>)"
    using assms(2) by (simp add: set_nonce_result write_u64_eq del: of_nat_eq_iff)
  have "n < 2 ^ 64" using assms(1) by simp
  then have "u64_at (set_at (tx_bytes tx) (be64 n) 77) 77 = n"
    using assms(2) by (simp add: u64_at_be64)
  then show "Transaction_get_nonce (tx\<lparr>tx_bytes := set_at (tx_bytes tx) (be64 n) 77,
              fieldsMap := insert ''nonce'' (fieldsMap tx)\<rparr>) = Inr n"
    using assms by (simp add: get_nonce_result length_set_at length_be64)
qed

lemma accept_sender:
  assumes "''version'' \<in> fieldsMap tx"
  shows "(\<exists>tx'. Transaction_set_sender tx arg = Inr tx') \<longleftrightarrow>
     (\<exists>a. arg = AddressObj a \<and>
        (tx_version tx = Genesis \<longleftrightarrow> Address_get_version a = Address_Genesis))"
  using assms
  by (cases arg) (auto simp: Transaction_set_sender_def get_version_eq)

lemma accept_recipient:
  assumes "''version'' \<in> fieldsMap tx"
  shows "(\<exists>tx'. Transaction_set_recipient tx arg = Inr tx') \<longleftrightarrow>
     tx_version tx \<noteq> CreateStructure \<and> tx_version tx \<noteq> UpdateStructure \<and>
     (\<exists>a. arg = AddressObj a \<and> Address_get_version a \<noteq> Address_Genesis \<and>
        (tx_version tx = Genesis \<longrightarrow> Address_get_version a = Address_Umi) \<and>
        (Address_get_version a = Address_Umi \<longrightarrow> tx_version tx = Genesis \<or> tx_version tx = Basic))"
  using assms
  by (cases arg) (auto simp: Transaction_set_recipient_def get_version_eq)

lemma accept_value:
  assumes "''version'' \<in> fieldsMap tx"
  shows "(\<exists>tx'. Transaction_set_value tx arg = Inr tx') \<longleftrightarrow>
     (tx_version tx = Genesis \<or> tx_version tx = Basic) \<and>
     (\<exists>n::nat. 1 \<le> n \<and> n \<le> 9007199254740991 \<and> arg = Num (Fin (real n)))"
proof (cases "tx_version tx = Genesis \<or> tx_version tx = Basic")
  case True
  show ?thesis
    using True by (cases arg) (auto simp: set_value_result [OF assms True])
next
  case False
  then show ?thesis using assms by (simp add: Transaction_set_value_def get_version_eq)
qed

lemma accept_nonce:
  "(\<exists>tx'. Transaction_set_nonce tx arg = Inr tx') \<longleftrightarrow>
     (\<exists>n::nat. n \<le> 9007199254740991 \<and> arg = Num (Fin (real n)))"
  by (cases arg) (auto simp: set_nonce_result)


lemma accept_profitPercent:
  assumes "''version'' \<in> fieldsMap tx"
  shows "(\<exists>tx'. Transaction_set_profitPercent tx arg = Inr tx') \<longleftrightarrow>
     (tx_version tx = CreateStructure \<or> tx_version tx = UpdateStructure) \<and>
     (\<exists>n::nat. 100 \<le> n \<and> n \<le> 500 \<and> arg = Num (Fin (real n)))"
proof (cases arg)
  case (Num x)
  show ?thesis
    using assms integer_in_range [of x 100 500]
    by (auto simp: Num Transaction_set_profitPercent_def get_version_eq)
qed (use assms in \<open>auto simp: Transaction_set_profitPercent_def get_version_eq\<close>)

lemma accept_feePercent:
  assumes "''version'' \<in> fieldsMap tx"
  shows "(\<exists>tx'. Transaction_set_feePercent tx arg = Inr tx') \<longleftrightarrow>
     (tx_version tx = CreateStructure \<or> tx_version tx = UpdateStructure) \<and>
     (\<exists>n::nat. n \<le> 2000 \<and> arg = Num (Fin (real n)))"
proof (cases arg)
  case (Num x)
  show ?thesis
    using assms integer_in_range [of x 0 2000]
    by (auto simp: Num Transaction_set_feePercent_def get_version_eq)
qed (use assms in \<open>auto simp: Transaction_set_feePercent_def get_version_eq\<close>)

lemma accept_name:
  assumes "''version'' \<in> fieldsMap tx"
  shows "(\<exists>tx'. Transaction_set_name tx arg = Inr tx') \<longleftrightarrow>
     (tx_version tx = CreateStructure \<or> tx_version tx = UpdateStructure) \<and>
     (\<exists>s. arg = Str s \<and> length (Utf8Encode s) < 36)"
  using assms
  by (cases arg) (auto simp: Transaction_set_name_def get_version_eq Let_def)

lemma accept_prefix:
  assumes "''version'' \<in> fieldsMap tx"
  shows "(\<exists>tx'. Transaction_set_prefix tx arg = Inr tx') \<longleftrightarrow>
     (tx_version tx = CreateStructure \<or> tx_version tx = UpdateStructure) \<and>
     (\<exists>v. prefixToVersion arg = Inr v)"
  using assms
  by (cases "prefixToVersion arg") (auto simp: Transaction_set_prefix_def get_version_eq)

lemma prefixToVersion_accepts:
  "(\<exists>v. prefixToVersion arg = Inr v) \<longleftrightarrow>
     (\<exists>s. arg = Str s \<and>
        (s = js ''genesis'' \<or>
         (\<exists>a b c. s = [a, b, c] \<and> 97 \<le> a \<and> a \<le> 122 \<and> 97 \<le> b \<and> b \<le> 122 \<and>
            97 \<le> c \<and> c \<le> 122)))"
proof (cases arg)
  case (Str s)
  show ?thesis
  proof (cases "s = js ''genesis''")
    case True
    then show ?thesis using Str by (simp add: prefixToVersion_def)
  next
    case False
    show ?thesis
    proof (cases "length s = 3")
      case True
      then obtain a b c where s: "s = [a, b, c]"
        by (auto simp: length_Suc_conv numeral_3_eq_3)
      have "[a, b, c] \<noteq> js ''genesis''" by (simp add: js_genesis)
      then show ?thesis
        unfolding Str s prefixToVersion_def by (auto simp: Let_def)
    next
      case False
      then show ?thesis
        using Str \<open>s \<noteq> js ''genesis''\<close> by (auto simp: prefixToVersion_def)
    qed
  qed
qed (simp_all add: prefixToVersion_def)

lemma signatureLength_ok:
  assumes "''sender'' \<in> fieldsMap tx" "length (tx_bytes tx) = 150"
  shows "sender_signatureLength tx = Inr 64"
proof -
  have l: "length (subarray (tx_bytes tx) 1 35) = 34" using assms(2) by (simp add: subarray_def)
  then have a: "Address_new (Uint8Array (subarray (tx_bytes tx) 1 35)) =
      Inr \<lparr>a_bytes = subarray (tx_bytes tx) 1 35\<rparr>"
    by (simp add: Address_new_def set_at_def)
  have "length (subarray (subarray (tx_bytes tx) 1 35) 2 34) = 32"
    using l by (simp add: subarray_def)
  then have "\<not> isl (Address_get_publicKey \<lparr>a_bytes = subarray (tx_bytes tx) 1 35\<rparr>)"
    using l by (simp add: Address_get_publicKey_def PublicKey_new_def)
  then show ?thesis
    using assms(1) a
    by (auto simp: sender_signatureLength_def Transaction_get_sender_def split: sum.splits)
qed

lemma accept_signature:
  assumes "''version'' \<in> fieldsMap tx" "length (tx_bytes tx) = 150"
  shows "(\<exists>tx'. Transaction_set_signature tx arg = Inr tx') \<longleftrightarrow>
     ''sender'' \<in> fieldsMap tx \<and> (\<exists>sig. arg = Uint8Array sig \<and> length sig = 64)"
proof (cases "''sender'' \<in> fieldsMap tx")
  case True
  show ?thesis
    using assms True signatureLength_ok [OF True assms(2)]
    by (cases arg) (auto simp: Transaction_set_signature_def)
next
  case False
  then show ?thesis using assms by (simp add: Transaction_set_signature_def)
qed


lemma set_version_accepts:
  assumes "''version'' \<notin> fieldsMap tx" "k \<le> 7"
  shows "Transaction_set_version tx (Num (Fin (real k))) =
      Inr (tx\<lparr>tx_bytes := (tx_bytes tx)[0 := of_nat k],
              fieldsMap := insert ''version'' (fieldsMap tx)\<rparr>)"
proof -
  have "\<exists>j::nat. j \<le> 7 \<and> real k = real j" using assms(2) by blast
  then show ?thesis
    using assms by (simp add: set_version_result byte_of_low trunc_def)
qed

lemma gate_part_unset:
  "(fieldsMap tx \<subseteq> {''nonce''} \<and> length (tx_bytes tx) = 150 \<longrightarrow>
      Transaction_get_version tx = Inl (Error ''version must be set'') \<and>
      Transaction_get_sender tx = Inl (Error ''sender must be set'') \<and>
      Transaction_get_recipient tx = Inl (Error ''version must be set'') \<and>
      Transaction_get_value tx = Inl (Error ''version must be set'') \<and>
      Transaction_get_prefix tx = Inl (Error ''version must be set'') \<and>
      Transaction_get_name tx = Inl (Error ''version must be set'') \<and>
      Transaction_get_profitPercent tx = Inl (Error ''version must be set'') \<and>
      Transaction_get_feePercent tx = Inl (Error ''version must be set'') \<and>
      Transaction_get_signature tx = Inl (Error ''signature must be set'') \<and>
      (''nonce'' \<notin> fieldsMap tx \<longrightarrow>
         Transaction_get_nonce tx = Inl (Error ''nonce must be set'')) \<and>
      (\<forall>a. Transaction_set_sender tx a = Inl (Error ''version must be set'') \<and>
           Transaction_set_recipient tx a = Inl (Error ''version must be set'') \<and>
           Transaction_set_value tx a = Inl (Error ''version must be set'') \<and>
           Transaction_set_prefix tx a = Inl (Error ''version must be set'') \<and>
           Transaction_set_name tx a = Inl (Error ''version must be set'') \<and>
           Transaction_set_profitPercent tx a = Inl (Error ''version must be set'') \<and>
           Transaction_set_feePercent tx a = Inl (Error ''version must be set'') \<and>
           Transaction_set_signature tx a = Inl (Error ''version must be set'')) \<and>
      (n \<le> 9007199254740991 \<longrightarrow>
         (\<exists>tx'. Transaction_set_nonce tx (Num (Fin (real n))) = Inr tx' \<and>
            fieldsMap tx' \<subseteq> {''nonce''} \<and> length (tx_bytes tx') = 150 \<and>
            Transaction_get_nonce tx' = Inr n)) \<and>
      (k \<le> 7 \<longrightarrow>
         (\<exists>tx'. Transaction_set_version tx (Num (Fin (real k))) = Inr tx' \<and>
            ''version'' \<in> fieldsMap tx' \<and> tx_version tx' = k)))"
proof (intro conjI impI allI)
  assume s: "fieldsMap tx \<subseteq> {''nonce''} \<and> length (tx_bytes tx) = 150"
  then have v: "''version'' \<notin> fieldsMap tx" and sd: "''sender'' \<notin> fieldsMap tx"
    and sg: "''signature'' \<notin> fieldsMap tx" and l: "length (tx_bytes tx) = 150"
    by auto
  show "Transaction_get_version tx = Inl (Error ''version must be set'')"
    "Transaction_get_recipient tx = Inl (Error ''version must be set'')"
    "Transaction_get_value tx = Inl (Error ''version must be set'')"
    "Transaction_get_prefix tx = Inl (Error ''version must be set'')"
    "Transaction_get_name tx = Inl (Error ''version must be set'')"
    "Transaction_get_profitPercent tx = Inl (Error ''version must be set'')"
    "Transaction_get_feePercent tx = Inl (Error ''version must be set'')"
    using gate_closed [OF v] by blast+
  show "Transaction_get_sender tx = Inl (Error ''sender must be set'')"
    "Transaction_get_signature tx = Inl (Error ''signature must be set'')"
    using sd sg own_field_unset by blast+
  {
    assume "''nonce'' \<notin> fieldsMap tx"
    then show "Transaction_get_nonce tx = Inl (Error ''nonce must be set'')"
      by (rule own_field_unset)
  }
  {
    fix a
    show "Transaction_set_sender tx a = Inl (Error ''version must be set'')"
      "Transaction_set_recipient tx a = Inl (Error ''version must be set'')"
      "Transaction_set_value tx a = Inl (Error ''version must be set'')"
      "Transaction_set_prefix tx a = Inl (Error ''version must be set'')"
      "Transaction_set_name tx a = Inl (Error ''version must be set'')"
      "Transaction_set_profitPercent tx a = Inl (Error ''version must be set'')"
      "Transaction_set_feePercent tx a = Inl (Error ''version must be set'')"
      "Transaction_set_signature tx a = Inl (Error ''version must be set'')"
      using gate_closed [OF v] by blast+
  }
  {
    assume n: "n \<le> 9007199254740991"
    let ?tx' = "tx\<lparr>tx_bytes := set_at (tx_bytes tx) (be64 n) 77,
              fieldsMap := insert ''nonce'' (fieldsMap tx)\<rparr>"
    have "Transaction_set_nonce tx (Num (Fin (real n))) = Inr ?tx'"
      and "Transaction_get_nonce ?tx' = Inr n"
      using set_nonce_accepts [OF n l] by blast+
    moreover have "fieldsMap ?tx' \<subseteq> {''nonce''}" using s by auto
    moreover have "length (tx_bytes ?tx') = 150" using l by (simp add: length_set_at length_be64)
    ultimately show "\<exists>tx'. Transaction_set_nonce tx (Num (Fin (real n))) = Inr tx' \<and>
            fieldsMap tx' \<subseteq> {''nonce''} \<and> length (tx_bytes tx') = 150 \<and>
            Transaction_get_nonce tx' = Inr n" by blast
  }
  assume "k \<le> 7"
  then have "Transaction_set_version tx (Num (Fin (real k))) =
      Inr (tx\<lparr>tx_bytes := (tx_bytes tx)[0 := of_nat k],
              fieldsMap := insert ''version'' (fieldsMap tx)\<rparr>)"
    using v set_version_accepts by blast
  moreover have "tx_version (tx\<lparr>tx_bytes := (tx_bytes tx)[0 := of_nat k],
              fieldsMap := insert ''version'' (fieldsMap tx)\<rparr>) = k"
    using l \<open>k \<le> 7\<close> by (simp add: tx_version_def unat_of_nat take_bit_nat_eq_self)
  ultimately show "\<exists>tx'. Transaction_set_version tx (Num (Fin (real k))) = Inr tx' \<and>
            ''version'' \<in> fieldsMap tx' \<and> tx_version tx' = k"
    by simp
qed

lemma gate_part_open:
  "(''version'' \<in> fieldsMap tx \<longrightarrow>
      (\<forall>a. Transaction_set_sender tx a \<noteq> Inl (Error ''version must be set'') \<and>
           Transaction_set_recipient tx a \<noteq> Inl (Error ''version must be set'') \<and>
           Transaction_set_value tx a \<noteq> Inl (Error ''version must be set'') \<and>
           Transaction_set_prefix tx a \<noteq> Inl (Error ''version must be set'') \<and>
           Transaction_set_name tx a \<noteq> Inl (Error ''version must be set'') \<and>
           Transaction_set_profitPercent tx a \<noteq> Inl (Error ''version must be set'') \<and>
           Transaction_set_feePercent tx a \<noteq> Inl (Error ''version must be set'') \<and>
           Transaction_set_signature tx a \<noteq> Inl (Error ''version must be set'')))"
proof (intro conjI impI allI)
  assume o: "''version'' \<in> fieldsMap tx"
  fix a
  show "Transaction_set_sender tx a \<noteq> Inl (Error ''version must be set'')"
    "Transaction_set_recipient tx a \<noteq> Inl (Error ''version must be set'')"
    "Transaction_set_value tx a \<noteq> Inl (Error ''version must be set'')"
    "Transaction_set_prefix tx a \<noteq> Inl (Error ''version must be set'')"
    "Transaction_set_name tx a \<noteq> Inl (Error ''version must be set'')"
    "Transaction_set_profitPercent tx a \<noteq> Inl (Error ''version must be set'')"
    "Transaction_set_feePercent tx a \<noteq> Inl (Error ''version must be set'')"
    "Transaction_set_signature tx a \<noteq> Inl (Error ''version must be set'')"
    using o gate_open_set_sender gate_open_set_recipient gate_open_set_value gate_open_set_prefix
      gate_open_set_name gate_open_set_profitPercent gate_open_set_feePercent
      gate_open_set_signature by blast+
qed

lemma gate_part_nonce:
  "((\<exists>tx'. Transaction_set_nonce tx arg = Inr tx') \<longleftrightarrow>
      (\<exists>m::nat. m \<le> 9007199254740991 \<and> arg = Num (Fin (real m)))) \<and>
   (n \<le> 9007199254740991 \<and> length (tx_bytes tx) = 150 \<longrightarrow>
      Transaction_set_nonce tx (Num (Fin (real n))) =
        Inr (tx\<lparr>tx_bytes := set_at (tx_bytes tx) (be64 n) 77,
                fieldsMap := insert ''nonce'' (fieldsMap tx)\<rparr>) \<and>
      Transaction_get_nonce (tx\<lparr>tx_bytes := set_at (tx_bytes tx) (be64 n) 77,
                fieldsMap := insert ''nonce'' (fieldsMap tx)\<rparr>) = Inr n)"
  using accept_nonce [of tx arg] set_nonce_accepts [of n tx] by blast

lemma gate_part_writable:
  "(''version'' \<in> fieldsMap tx \<and> length (tx_bytes tx) = 150 \<longrightarrow>
      ((\<exists>tx'. Transaction_set_sender tx arg = Inr tx') \<longleftrightarrow>
         (\<exists>a. arg = AddressObj a \<and>
            (tx_version tx = Genesis \<longleftrightarrow> Address_get_version a = Address_Genesis))) \<and>
      ((\<exists>tx'. Transaction_set_recipient tx arg = Inr tx') \<longleftrightarrow>
         tx_version tx \<noteq> CreateStructure \<and> tx_version tx \<noteq> UpdateStructure \<and>
         (\<exists>a. arg = AddressObj a \<and> Address_get_version a \<noteq> Address_Genesis \<and>
            (tx_version tx = Genesis \<longrightarrow> Address_get_version a = Address_Umi) \<and>
            (Address_get_version a = Address_Umi \<longrightarrow>
               tx_version tx = Genesis \<or> tx_version tx = Basic))) \<and>
      ((\<exists>tx'. Transaction_set_value tx arg = Inr tx') \<longleftrightarrow>
         (tx_version tx = Genesis \<or> tx_version tx = Basic) \<and>
         (\<exists>m::nat. 1 \<le> m \<and> m \<le> 9007199254740991 \<and> arg = Num (Fin (real m)))) \<and>
      ((\<exists>tx'. Transaction_set_prefix tx arg = Inr tx') \<longleftrightarrow>
         (tx_version tx = CreateStructure \<or> tx_version tx = UpdateStructure) \<and>
         (\<exists>s. arg = Str s \<and>
            (s = js ''genesis'' \<or>
             (\<exists>a b c. s = [a, b, c] \<and> 97 \<le> a \<and> a \<le> 122 \<and> 97 \<le> b \<and> b \<le> 122 \<and>
                97 \<le> c \<and> c \<le> 122)))) \<and>
      ((\<exists>tx'. Transaction_set_name tx arg = Inr tx') \<longleftrightarrow>
         (tx_version tx = CreateStructure \<or> tx_version tx = UpdateStructure) \<and>
         (\<exists>s. arg = Str s \<and> length (Utf8Encode s) < 36)) \<and>
      ((\<exists>tx'. Transaction_set_profitPercent tx arg = Inr tx') \<longleftrightarrow>
         (tx_version tx = CreateStructure \<or> tx_version tx = UpdateStructure) \<and>
         (\<exists>m::nat. 100 \<le> m \<and> m \<le> 500 \<and> arg = Num (Fin (real m)))) \<and>
      ((\<exists>tx'. Transaction_set_feePercent tx arg = Inr tx') \<longleftrightarrow>
         (tx_version tx = CreateStructure \<or> tx_version tx = UpdateStructure) \<and>
         (\<exists>m::nat. m \<le> 2000 \<and> arg = Num (Fin (real m)))) \<and>
      ((\<exists>tx'. Transaction_set_signature tx arg = Inr tx') \<longleftrightarrow>
         ''sender'' \<in> fieldsMap tx \<and> (\<exists>sig. arg = Uint8Array sig \<and> length sig = 64)))"
  using accept_sender [of tx arg] accept_recipient [of tx arg] accept_value [of tx arg]
    accept_prefix [of tx arg] prefixToVersion_accepts [of arg] accept_name [of tx arg]
    accept_profitPercent [of tx arg] accept_feePercent [of tx arg] accept_signature [of tx arg]
  by simp

text \<open>
  C7, as the code has it. On a transaction created empty whose version was never set (the
  only field that can be marked is \<open>nonce\<close>), every getter fails, the nonce getter
  until the nonce setter has run, and every setter other than those of version and nonce
  fails with "version must be set"; the version setter accepts 0..7 and marks the version.
  The nonce setter does not depend on the version: on every transaction, version set or not,
  it accepts exactly the integers in \<open>[0, 2^53-1]\<close>, after which the nonce getter
  returns the number. Only after version is set does the version-dependent field set become
  writable: no setter fails with "version must be set" any more, and each setter accepts
  exactly the arguments valid for a field of the version that was set (sender for every
  version, recipient for all but the two structure versions, value for Genesis and Basic,
  prefix, name, profitPercent and feePercent for CreateStructure and UpdateStructure,
  signature once the sender is set) and refuses every argument for a field of another
  version.
\<close>

theorem version_gate:
  "((fieldsMap tx \<subseteq> {''nonce''} \<and> length (tx_bytes tx) = 150 \<longrightarrow>
      Transaction_get_version tx = Inl (Error ''version must be set'') \<and>
      Transaction_get_sender tx = Inl (Error ''sender must be set'') \<and>
      Transaction_get_recipient tx = Inl (Error ''version must be set'') \<and>
      Transaction_get_value tx = Inl (Error ''version must be set'') \<and>
      Transaction_get_prefix tx = Inl (Error ''version must be set'') \<and>
      Transaction_get_name tx = Inl (Error ''version must be set'') \<and>
      Transaction_get_profitPercent tx = Inl (Error ''version must be set'') \<and>
      Transaction_get_feePercent tx = Inl (Error ''version must be set'') \<and>
      Transaction_get_signature tx = Inl (Error ''signature must be set'') \<and>
      (''nonce'' \<notin> fieldsMap tx \<longrightarrow>
         Transaction_get_nonce tx = Inl (Error ''nonce must be set'')) \<and>
      (\<forall>a. Transaction_set_sender tx a = Inl (Error ''version must be set'') \<and>
           Transaction_set_recipient tx a = Inl (Error ''version must be set'') \<and>
           Transaction_set_value tx a = Inl (Error ''version must be set'') \<and>
           Transaction_set_prefix tx a = Inl (Error ''version must be set'') \<and>
           Transaction_set_name tx a = Inl (Error ''version must be set'') \<and>
           Transaction_set_profitPercent tx a = Inl (Error ''version must be set'') \<and>
           Transaction_set_feePercent tx a = Inl (Error ''version must be set'') \<and>
           Transaction_set_signature tx a = Inl (Error ''version must be set'')) \<and>
      (n \<le> 9007199254740991 \<longrightarrow>
         (\<exists>tx'. Transaction_set_nonce tx (Num (Fin (real n))) = Inr tx' \<and>
            fieldsMap tx' \<subseteq> {''nonce''} \<and> length (tx_bytes tx') = 150 \<and>
            Transaction_get_nonce tx' = Inr n)) \<and>
      (k \<le> 7 \<longrightarrow>
         (\<exists>tx'. Transaction_set_version tx (Num (Fin (real k))) = Inr tx' \<and>
            ''version'' \<in> fieldsMap tx' \<and> tx_version tx' = k)))) \<and>
   (''version'' \<in> fieldsMap tx \<longrightarrow>
      (\<forall>a. Transaction_set_sender tx a \<noteq> Inl (Error ''version must be set'') \<and>
           Transaction_set_recipient tx a \<noteq> Inl (Error ''version must be set'') \<and>
           Transaction_set_value tx a \<noteq> Inl (Error ''version must be set'') \<and>
           Transaction_set_prefix tx a \<noteq> Inl (Error ''version must be set'') \<and>
           Transaction_set_name tx a \<noteq> Inl (Error ''version must be set'') \<and>
           Transaction_set_profitPercent tx a \<noteq> Inl (Error ''version must be set'') \<and>
           Transaction_set_feePercent tx a \<noteq> Inl (Error ''version must be set'') \<and>
           Transaction_set_signature tx a \<noteq> Inl (Error ''version must be set''))) \<and>
   ((\<exists>tx'. Transaction_set_nonce tx arg = Inr tx') \<longleftrightarrow>
      (\<exists>m::nat. m \<le> 9007199254740991 \<and> arg = Num (Fin (real m)))) \<and>
   (n \<le> 9007199254740991 \<and> length (tx_bytes tx) = 150 \<longrightarrow>
      Transaction_set_nonce tx (Num (Fin (real n))) =
        Inr (tx\<lparr>tx_bytes := set_at (tx_bytes tx) (be64 n) 77,
                fieldsMap := insert ''nonce'' (fieldsMap tx)\<rparr>) \<and>
      Transaction_get_nonce (tx\<lparr>tx_bytes := set_at (tx_bytes tx) (be64 n) 77,
                fieldsMap := insert ''nonce'' (fieldsMap tx)\<rparr>) = Inr n) \<and>
   (''version'' \<in> fieldsMap tx \<and> length (tx_bytes tx) = 150 \<longrightarrow>
      ((\<exists>tx'. Transaction_set_sender tx arg = Inr tx') \<longleftrightarrow>
         (\<exists>a. arg = AddressObj a \<and>
            (tx_version tx = Genesis \<longleftrightarrow> Address_get_version a = Address_Genesis))) \<and>
      ((\<exists>tx'. Transaction_set_recipient tx arg = Inr tx') \<longleftrightarrow>
         tx_version tx \<noteq> CreateStructure \<and> tx_version tx \<noteq> UpdateStructure \<and>
         (\<exists>a. arg = AddressObj a \<and> Address_get_version a \<noteq> Address_Genesis \<and>
            (tx_version tx = Genesis \<longrightarrow> Address_get_version a = Address_Umi) \<and>
            (Address_get_version a = Address_Umi \<longrightarrow>
               tx_version tx = Genesis \<or> tx_version tx = Basic))) \<and>
      ((\<exists>tx'. Transaction_set_value tx arg = Inr tx') \<longleftrightarrow>
         (tx_version tx = Genesis \<or> tx_version tx = Basic) \<and>
         (\<exists>m::nat. 1 \<le> m \<and> m \<le> 9007199254740991 \<and> arg = Num (Fin (real m)))) \<and>
      ((\<exists>tx'. Transaction_set_prefix tx arg = Inr tx') \<longleftrightarrow>
         (tx_version tx = CreateStructure \<or> tx_version tx = UpdateStructure) \<and>
         (\<exists>s. arg = Str s \<and>
            (s = js ''genesis'' \<or>
             (\<exists>a b c. s = [a, b, c] \<and> 97 \<le> a \<and> a \<le> 122 \<and> 97 \<le> b \<and> b \<le> 122 \<and>
                97 \<le> c \<and> c \<le> 122)))) \<and>
      ((\<exists>tx'. Transaction_set_name tx arg = Inr tx') \<longleftrightarrow>
         (tx_version tx = CreateStructure \<or> tx_version tx = UpdateStructure) \<and>
         (\<exists>s. arg = Str s \<and> length (Utf8Encode s) < 36)) \<and>
      ((\<exists>tx'. Transaction_set_profitPercent tx arg = Inr tx') \<longleftrightarrow>
         (tx_version tx = CreateStructure \<or> tx_version tx = UpdateStructure) \<and>
         (\<exists>m::nat. 100 \<le> m \<and> m \<le> 500 \<and> arg = Num (Fin (real m)))) \<and>
      ((\<exists>tx'. Transaction_set_feePercent tx arg = Inr tx') \<longleftrightarrow>
         (tx_version tx = CreateStructure \<or> tx_version tx = UpdateStructure) \<and>
         (\<exists>m::nat. m \<le> 2000 \<and> arg = Num (Fin (real m)))) \<and>
      ((\<exists>tx'. Transaction_set_signature tx arg = Inr tx') \<longleftrightarrow>
         ''sender'' \<in> fieldsMap tx \<and> (\<exists>sig. arg = Uint8Array sig \<and> length sig = 64)))"
  by (rule conjI [OF gate_part_unset conjI [OF gate_part_open
        conjI [OF gate_part_nonce [THEN conjunct1]
          conjI [OF gate_part_nonce [THEN conjunct2] gate_part_writable]]]])


theorem version_gate_witness:
  "Transaction_get_version empty_tx = Inl (Error ''version must be set'') \<and>
   Transaction_get_nonce empty_tx = Inl (Error ''nonce must be set'') \<and>
   Transaction_set_value empty_tx (Num (Fin 42)) = Inl (Error ''version must be set'') \<and>
   (\<exists>tx'. Transaction_set_nonce empty_tx (Num (Fin (real 5))) = Inr tx' \<and>
      Transaction_get_nonce tx' = Inr 5) \<and>
   (\<exists>tx'. Transaction_set_version empty_tx (Num (Fin (real 1))) = Inr tx' \<and>
      ''version'' \<in> fieldsMap tx' \<and> tx_version tx' = 1) \<and>
   Transaction_set_value basic_tx (Num (Fin 42)) \<noteq> Inl (Error ''version must be set'') \<and>
   (\<exists>tx'. Transaction_set_nonce basic_tx (Num (Fin (real 5))) = Inr tx') \<and>
   (\<exists>tx'. Transaction_set_value basic_tx (Num (Fin (real 42))) = Inr tx') \<and>
   (\<exists>tx'. Transaction_set_sender basic_tx (AddressObj umi_address) = Inr tx') \<and>
   (\<exists>tx'. Transaction_set_recipient basic_tx (AddressObj umi_address) = Inr tx') \<and>
   isl (Transaction_set_prefix basic_tx (Str (js ''abc''))) \<and>
   isl (Transaction_set_name basic_tx (Str (js ''abc''))) \<and>
   isl (Transaction_set_profitPercent basic_tx (Num (Fin (real 100)))) \<and>
   isl (Transaction_set_feePercent basic_tx (Num (Fin (real 100)))) \<and>
   isl (Transaction_set_signature basic_tx (Uint8Array (replicate 64 0))) \<and>
   isl (Transaction_set_sender genesis_tx (AddressObj umi_address))"
proof -
  have h: "fieldsMap empty_tx \<subseteq> {''nonce''} \<and> length (tx_bytes empty_tx) = 150"
    by (simp add: empty_tx_eq)
  have n: "''nonce'' \<notin> fieldsMap empty_tx" "(5::nat) \<le> 9007199254740991" "(1::nat) \<le> 7"
    by (simp_all add: empty_tx_eq)
  have o: "''version'' \<in> fieldsMap basic_tx" "''version'' \<in> fieldsMap genesis_tx"
    by (simp_all add: examples_fields)
  have l: "length (tx_bytes basic_tx) = 150" "length (tx_bytes genesis_tx) = 150"
    by (simp_all add: examples_fields)
  have v: "tx_version basic_tx = Basic" "tx_version genesis_tx = Genesis"
     "Basic \<noteq> Genesis" "Basic \<noteq> CreateStructure" "Basic \<noteq> UpdateStructure"
     "Address_get_version umi_address = Address_Umi" "Address_Umi \<noteq> Address_Genesis"
     "''sender'' \<notin> fieldsMap basic_tx"
    by (simp_all add: examples_fields Basic_def Genesis_def CreateStructure_def
        UpdateStructure_def Address_Umi_def Address_Genesis_def)
  have r: "\<And>f. (\<not> (\<exists>tx'. f = Inr tx')) = isl (f :: error + transaction)"
    by (case_tac f) simp_all
  have e: "\<exists>m::nat. 1 \<le> m \<and> m \<le> 9007199254740991 \<and> Num (Fin (real 42)) = Num (Fin (real m))"
     "\<exists>m::nat. m \<le> 9007199254740991 \<and> Num (Fin (real 5)) = Num (Fin (real m))"
    by (rule exI [of _ 42], simp) (rule exI [of _ 5], simp)
  have g1: "Transaction_get_version empty_tx = Inl (Error ''version must be set'') \<and>
   Transaction_get_nonce empty_tx = Inl (Error ''nonce must be set'') \<and>
   Transaction_set_value empty_tx (Num (Fin 42)) = Inl (Error ''version must be set'') \<and>
   (\<exists>tx'. Transaction_set_nonce empty_tx (Num (Fin (real 5))) = Inr tx' \<and>
      Transaction_get_nonce tx' = Inr 5) \<and>
   (\<exists>tx'. Transaction_set_version empty_tx (Num (Fin (real 1))) = Inr tx' \<and>
      ''version'' \<in> fieldsMap tx' \<and> tx_version tx' = 1)"
    using version_gate [THEN conjunct1, of empty_tx 5 1] h n by blast
  have g2: "Transaction_set_value basic_tx (Num (Fin 42)) \<noteq> Inl (Error ''version must be set'')"
    using version_gate [THEN conjunct2, THEN conjunct1, of basic_tx] o by blast
  have g3: "\<exists>tx'. Transaction_set_nonce basic_tx (Num (Fin (real 5))) = Inr tx'"
    using version_gate [THEN conjunct2, THEN conjunct2, THEN conjunct1,
        of basic_tx "Num (Fin (real 5))"] e by blast
  note w = version_gate [THEN conjunct2, THEN conjunct2, THEN conjunct2, THEN conjunct2, THEN mp]
  have g4: "\<exists>tx'. Transaction_set_value basic_tx (Num (Fin (real 42))) = Inr tx'"
    using w [of basic_tx "Num (Fin (real 42))"] o l v e by blast
  have g5: "(\<exists>tx'. Transaction_set_sender basic_tx (AddressObj umi_address) = Inr tx') \<and>
   (\<exists>tx'. Transaction_set_recipient basic_tx (AddressObj umi_address) = Inr tx') \<and>
   isl (Transaction_set_sender genesis_tx (AddressObj umi_address))"
    using w [of basic_tx "AddressObj umi_address"] w [of genesis_tx "AddressObj umi_address"]
      o l v unfolding r [symmetric] by simp
  have g6: "isl (Transaction_set_prefix basic_tx (Str (js ''abc''))) \<and>
   isl (Transaction_set_name basic_tx (Str (js ''abc'')))"
    using w [of basic_tx "Str (js ''abc'')"] o l v unfolding r [symmetric] by simp
  have g7: "isl (Transaction_set_profitPercent basic_tx (Num (Fin (real 100)))) \<and>
   isl (Transaction_set_feePercent basic_tx (Num (Fin (real 100))))"
    using w [of basic_tx "Num (Fin (real 100))"] o l v unfolding r [symmetric] by simp
  have g8: "isl (Transaction_set_signature basic_tx (Uint8Array (replicate 64 0)))"
    using w [of basic_tx "Uint8Array (replicate 64 0)"] o l v unfolding r [symmetric] by simp
  show ?thesis
    using g1 g2 g3 g4 g5 g6 g7 g8 by simp
qed

text \<open>
  The claim as stated fails at the nonce: on the empty transaction, version never set,
  the nonce setter succeeds and the nonce getter then returns the number.
\<close>

theorem nonce_before_version_counterexample:
  "Transaction_new Undefined = Inr empty_tx \<and>
   ''version'' \<notin> fieldsMap empty_tx \<and>
   \<not> isl (Transaction_set_nonce empty_tx (Num (Fin (real 5)))) \<and>
   ''version'' \<notin> fieldsMap (projr (Transaction_set_nonce empty_tx (Num (Fin (real 5))))) \<and>
   Transaction_get_nonce (projr (Transaction_set_nonce empty_tx (Num (Fin (real 5))))) = Inr 5"
  using set_nonce_accepts [of 5 empty_tx]
  by (simp add: examples_built empty_tx_eq)


section \<open>Address\<close>

lemma setUint16_head:
  "2 \<le> length bs \<Longrightarrow> length (setUint16 bs 0 w) = length bs \<and> setUint16 bs 0 w ! 0 = ucast (drop_bit 8 w)"
  by (cases bs) (auto simp: setUint16_def)

lemma top_clear_masked: "\<not> bit (ucast (drop_bit 8 ((w :: 32 word) AND 0x7FFF)) :: byte) 7"
proof -
  have m: "(0x7FFF :: 32 word) = mask 15" by (simp add: mask_eq_exp_minus_1)
  show ?thesis unfolding m by (simp add: bit_simps)
qed

lemma top_clear_small: "v < 32768 \<Longrightarrow> \<not> bit (ucast (drop_bit 8 (of_nat v :: 32 word)) :: byte) 7"
proof -
  assume "v < 32768"
  then have "\<not> bit v 15" by (simp add: bit_iff_odd)
  then show ?thesis by (simp add: bit_simps)
qed

lemma set_version_inv:
  "2 \<le> length (a_bytes a) \<Longrightarrow> Address_set_version a v = Inr a' \<Longrightarrow> addr_inv a'"
  using top_clear_masked
  by (auto simp: Address_set_version_def addr_inv_def setUint16_head split: sum.splits)

lemma prefixToVersion_small:
  assumes "prefixToVersion p = Inr v"
  shows "v < 32768"
proof (cases p)
  case (Str s)
  show ?thesis
  proof (cases "s = js ''genesis''")
    case True
    then show ?thesis using assms Str by (simp add: prefixToVersion_def)
  next
    case False
    define a b c where "a = int (s ! 0) - 96" and "b = int (s ! 1) - 96" and "c = int (s ! 2) - 96"
    have r: "prefixToVersion p =
        (if length s \<noteq> 3 then Inl (Error ''prefix must be 3 bytes ling'')
         else if a < 1 \<or> a > 26 then Inl (Error ''incorrect prefix - first char'')
         else if b < 1 \<or> b > 26 then Inl (Error ''incorrect prefix - second char'')
         else if c < 1 \<or> c > 26 then Inl (Error ''incorrect prefix - third char'')
         else Inr (nat (a * 1024 + b * 32 + c)))"
      using False Str by (simp add: prefixToVersion_def Let_def a_def b_def c_def)
    have "a \<le> 26 \<and> b \<le> 26 \<and> c \<le> 26 \<and> v = nat (a * 1024 + b * 32 + c)"
      using assms unfolding r by (simp split: if_splits)
    then show ?thesis by linarith
  qed
qed (use assms in \<open>simp_all add: prefixToVersion_def\<close>)

lemma set_publicKey_inv:
  "addr_inv a \<Longrightarrow> Address_set_publicKey a v = Inr a' \<Longrightarrow> addr_inv a'"
  by (auto simp: Address_set_publicKey_def addr_inv_def set_at_def nth_append split: jsvalue.splits)

lemma set_prefix_inv:
  "2 \<le> length (a_bytes a) \<Longrightarrow> Address_set_prefix a v = Inr a' \<Longrightarrow> addr_inv a'"
  using set_version_inv by (auto simp: Address_set_prefix_def split: sum.splits)

lemma decode_result_inv:
  assumes l: "length (bytes :: 32 word list) = 32" and p: "prefixToVersion (Str prefix) = Inr v"
  shows "2 \<le> length (setUint16 (set_at (replicate 34 0) (map ucast bytes) 2) 0 (of_nat v)) \<and>
     \<not> bit (setUint16 (set_at (replicate 34 0) (map ucast bytes) 2) 0 (of_nat v) ! 0) 7"
proof -
  have "length (set_at (replicate 34 0) (map ucast bytes) 2 :: byte list) = 34"
    using l by (simp add: set_at_def)
  then have g: "2 \<le> length (set_at (replicate 34 0) (map ucast bytes) 2 :: byte list)" by simp
  show ?thesis
    using setUint16_head [OF g, of "of_nat v"] top_clear_small [OF prefixToVersion_small [OF p]] g
    by simp
qed

lemma decode_inv:
  assumes d: "Bech32_decode lc uc s = Inr bs"
  shows "2 \<le> length bs \<and> \<not> bit (bs ! 0) 7"
proof (cases "Bech32_decode_words lc uc s")
  case (Inl e)
  then show ?thesis using d by (simp add: Bech32_decode_def)
next
  case (Inr r)
  obtain prefix ws where r: "r = (prefix, ws)" by (cases r)
  show ?thesis
  proof (cases "convert ws 5 8 False")
    case (Inl e)
    then show ?thesis using d Inr r by (simp add: Bech32_decode_def)
  next
    case c: (Inr bytes)
    show ?thesis
    proof (cases "prefixToVersion (Str prefix)")
      case (Inl e)
      then show ?thesis using d Inr r c by (simp add: Bech32_decode_def split: if_splits)
    next
      case v: (Inr v)
      have l: "length bytes = 32"
        using d Inr r c v by (simp add: Bech32_decode_def split: if_splits)
      have "bs = setUint16 (set_at (replicate 34 0) (map ucast bytes) 2) 0 (of_nat v)"
        using d Inr r c v l by (simp add: Bech32_decode_def)
      then show ?thesis using decode_result_inv [OF l v] by simp
    qed
  qed
qed

lemma set_at_head:
  "2 \<le> length src \<Longrightarrow> 2 \<le> length (set_at target src 0) \<and> set_at target src 0 ! 0 = src ! 0"
  by (cases src) (auto simp: set_at_def)

lemma set_bech32_inv:
  assumes "Address_set_bech32 lc uc a v = Inr a'"
  shows "addr_inv a'"
proof -
  from assms obtain s bs where d: "Bech32_decode lc uc s = Inr bs"
    and a': "a' = a\<lparr>a_bytes := set_at (a_bytes a) bs 0\<rparr>"
    by (auto simp: Address_set_bech32_def split: jsvalue.splits sum.splits)
  from decode_inv [OF d] have "2 \<le> length bs" "\<not> bit (bs ! 0) 7" by simp_all
  with set_at_head [of bs "a_bytes a"] show ?thesis by (simp add: addr_inv_def a')
qed

lemma call_setter_inv:
  assumes i: "addr_inv a" and c: "call_setter lc uc a c = Inr a'"
  shows "addr_inv a'"
proof -
  have l: "2 \<le> length (a_bytes a)" using i by (simp add: addr_inv_def)
  show ?thesis
  proof (cases c)
    case (SetVersion v)
    then show ?thesis using c set_version_inv [OF l] by simp
  next
    case (SetPublicKey v)
    then show ?thesis using c set_publicKey_inv [OF i] by simp
  next
    case (SetPrefix v)
    then show ?thesis using c set_prefix_inv [OF l] by simp
  next
    case (SetBech32 v)
    then show ?thesis using c set_bech32_inv by simp
  qed
qed

lemma run_setters_inv: "addr_inv a \<Longrightarrow> addr_inv (run_setters lc uc a calls)"
proof (induction calls arbitrary: a)
  case Nil
  then show ?case by simp
next
  case (Cons c cs)
  show ?case
  proof (cases "call_setter lc uc a c")
    case (Inl e)
    then show ?thesis using Cons by simp
  next
    case (Inr a')
    then have "addr_inv a'" using Cons.prems call_setter_inv by blast
    then show ?thesis using Cons.IH Inr by simp
  qed
qed

lemma new_inv:
  assumes "Address_new Undefined = Inr a"
  shows "addr_inv a"
proof -
  have "Address_set_version \<lparr>a_bytes = replicate 34 0\<rparr> (Num (Fin (real Address_Umi))) = Inr a"
    using assms by (simp add: Address_new_def)
  moreover have "2 \<le> length (a_bytes \<lparr>a_bytes = replicate 34 (0::byte)\<rparr>)" by simp
  ultimately show ?thesis using set_version_inv by blast
qed

lemma fromKey_inv:
  assumes "Address_fromKey k = Inr a"
  shows "addr_inv a"
proof -
  from assms obtain a0 v where "Address_new Undefined = Inr a0" "Address_set_publicKey a0 v = Inr a"
    by (auto simp: Address_fromKey_def split: jsvalue.splits sum.splits)
  then show ?thesis using new_inv set_publicKey_inv by blast
qed

lemma fromBech32_inv: "Address_fromBech32 lc uc s = Inr a \<Longrightarrow> addr_inv a"
  using set_bech32_inv
  by (simp add: Address_fromBech32_def split: sum.splits)

lemma set_at_whole: "length src = length target \<Longrightarrow> set_at target src 0 = src"
  by (simp add: set_at_def)

lemma raw_inv: "Address_new (Uint8Array bs) = Inr a \<Longrightarrow> \<not> bit (bs ! 0) 7 \<Longrightarrow> addr_inv a"
  by (auto simp: Address_new_def addr_inv_def set_at_whole split: if_splits)

lemma raw_bytes_copied:
  "Address_new (Uint8Array bs) = Inr a \<Longrightarrow> a_bytes a = bs"
  by (auto simp: Address_new_def set_at_whole split: if_splits)

text \<open>
  C8, as the code has it. For every Address constructed empty, from a key or from Bech32,
  and for one constructed from 34 raw bytes whose byte 0 has bit 7 clear, after any sequence
  of setter calls (version, publicKey, prefix, bech32, each with any argument), the high bit
  of the stored big-endian u16 version word (bit 7 of byte 0) is zero. The constructor copies
  34 raw bytes as they are: the address made from them has the high bit of the bytes given.
\<close>

theorem address_high_bit_zero:
  "((Address_new Undefined = Inr a \<or> Address_fromKey k = Inr a \<or>
     Address_fromBech32 lc uc s = Inr a \<or>
     (Address_new (Uint8Array bs) = Inr a \<and> \<not> bit (bs ! 0) 7)) \<longrightarrow>
    high_bit_zero (run_setters lc uc a calls)) \<and>
   (Address_new (Uint8Array bs) = Inr a \<longrightarrow>
      a_bytes a = bs \<and> (high_bit_zero a \<longleftrightarrow> \<not> bit (bs ! 0) 7))"
proof (intro conjI impI)
  assume "Address_new Undefined = Inr a \<or> Address_fromKey k = Inr a \<or>
    Address_fromBech32 lc uc s = Inr a \<or>
    (Address_new (Uint8Array bs) = Inr a \<and> \<not> bit (bs ! 0) 7)"
  then have "addr_inv a"
    using new_inv fromKey_inv fromBech32_inv raw_inv by blast
  then have "addr_inv (run_setters lc uc a calls)" by (rule run_setters_inv)
  then show "high_bit_zero (run_setters lc uc a calls)"
    by (simp add: addr_inv_def high_bit_zero_def)
next
  assume "Address_new (Uint8Array bs) = Inr a"
  then show "a_bytes a = bs" by (rule raw_bytes_copied)
  then show "high_bit_zero a \<longleftrightarrow> \<not> bit (bs ! 0) 7" by (simp add: high_bit_zero_def)
qed

theorem address_high_bit_witness:
  "Address_new Undefined = Inr umi_address \<and>
   high_bit_zero (run_setters (map ascii_lower) (map ascii_upper) umi_address
     [SetVersion (Num (Fin 1057)), SetPublicKey Other, SetPrefix (Str (js ''zzz''))]) \<and>
   Address_new (Uint8Array (replicate 34 0)) = Inr \<lparr>a_bytes = replicate 34 0\<rparr> \<and>
   high_bit_zero \<lparr>a_bytes = replicate 34 0\<rparr>"
proof -
  have r: "Address_new (Uint8Array (replicate 34 0)) = Inr \<lparr>a_bytes = replicate 34 0\<rparr>"
    by (simp add: Address_new_def set_at_whole)
  have "high_bit_zero (run_setters (map ascii_lower) (map ascii_upper) umi_address
     [SetVersion (Num (Fin 1057)), SetPublicKey Other, SetPrefix (Str (js ''zzz''))])"
    using address_high_bit_zero [where a = umi_address and k = Other and s = Other
      and bs = "[]" and lc = "map ascii_lower" and uc = "map ascii_upper"
      and calls = "[SetVersion (Num (Fin 1057)), SetPublicKey Other, SetPrefix (Str (js ''zzz''))]",
      THEN conjunct1]
    by (simp add: examples_built)
  moreover have "high_bit_zero \<lparr>a_bytes = replicate 34 0\<rparr>"
    using address_high_bit_zero [where bs = "replicate 34 0"
      and a = "\<lparr>a_bytes = replicate 34 0\<rparr>", THEN conjunct2] r
    by simp
  ultimately show ?thesis using r by (simp add: examples_built)
qed

text \<open>
  The claim as stated fails for an address made from raw bytes: the constructor checks
  only their type and length, so 34 bytes that start with \<open>0x80\<close> give an address whose
  version word has its high bit set, and setting the public key leaves it set.
\<close>

theorem address_raw_bytes_counterexample:
  "Address_new (Uint8Array (0x80 # replicate 33 0)) = Inr \<lparr>a_bytes = 0x80 # replicate 33 0\<rparr> \<and>
   \<not> high_bit_zero \<lparr>a_bytes = 0x80 # replicate 33 0\<rparr> \<and>
   \<not> high_bit_zero (run_setters (map ascii_lower) (map ascii_upper)
        \<lparr>a_bytes = 0x80 # replicate 33 0\<rparr> [SetPublicKey (PublicKeyObj \<lparr>pk_bytes = replicate 32 0\<rparr>)])"
  by (simp add: Address_new_def set_at_whole high_bit_zero_def Address_set_publicKey_def set_at_def)


section \<open>Bech32 and the case of letters\<close>

lemma lastIndexOf_Some: "lastIndexOf s c = Some i \<Longrightarrow> i < length s \<and> s ! i = c"
proof (induction s arbitrary: i)
  case Nil
  then show ?case by simp
next
  case (Cons x xs)
  show ?case
  proof (cases "lastIndexOf xs c")
    case None
    then show ?thesis using Cons.prems by (simp split: if_splits)
  next
    case (Some j)
    then show ?thesis using Cons.prems Cons.IH [OF Some] by auto
  qed
qed

lemma prefixChk_high_chars:
  "prefixChk_high p cs chk = Inr r \<Longrightarrow> \<forall>c \<in> set cs. c < 128"
proof (induction cs arbitrary: chk)
  case Nil
  then show ?case by simp
next
  case (Cons c cs)
  then show ?case by (auto split: if_splits)
qed

lemma prefixChk_chars: "prefixChk p = Inr r \<Longrightarrow> \<forall>c \<in> set p. c < 128"
  using prefixChk_high_chars [of p p 1]
  by (auto simp: prefixChk_def split: sum.splits)

lemma ALPHABET_MAP_ascii: "ALPHABET_MAP c = Some v \<Longrightarrow> c < 128"
  by (simp add: ALPHABET_MAP_def split: if_splits)

lemma decode_words_chars:
  "decode_words cs chk ws = Inr r \<Longrightarrow> \<forall>c \<in> set cs. c < 128"
proof (induction cs arbitrary: chk ws)
  case Nil
  then show ?case by simp
next
  case (Cons c cs)
  show ?case
  proof (cases "ALPHABET_MAP c")
    case None
    then show ?thesis using Cons.prems by simp
  next
    case (Some v)
    then have "decode_words cs (polymodStep chk XOR v)
            (if length cs < 6 then ws else ws @ [ucast v]) = Inr r"
      using Cons.prems by simp
    then have "\<forall>c \<in> set cs. c < 128" by (rule Cons.IH)
    then show ?thesis using ALPHABET_MAP_ascii [OF Some] by simp
  qed
qed

lemma decode_words_mixed:
  "s \<noteq> lc s \<Longrightarrow> s \<noteq> uc s \<Longrightarrow>
   Bech32_decode_words lc uc s = Inl (ErrorText (js ''Mixed-case string '' @ s))"
  by (simp add: Bech32_decode_words_def)

lemma decode_words_uniform:
  assumes "s = lc s \<or> s = uc s"
  shows "Bech32_decode_words lc uc s =
    (case lastIndexOf (lc s) 49 of
       None \<Rightarrow> Inl (ErrorText (js ''No separator character for '' @ lc s))
     | Some split \<Rightarrow>
         if split = 0 then Inl (ErrorText (js ''Missing prefix for '' @ lc s))
         else if length (drop (split + 1) (lc s)) < 6 then Inl (Error ''Data too short'')
         else case prefixChk (take split (lc s)) of
                Inl e \<Rightarrow> Inl e
              | Inr chk0 \<Rightarrow>
                  (case decode_words (drop (split + 1) (lc s)) chk0 [] of
                     Inl e \<Rightarrow> Inl e
                   | Inr (chk, ws) \<Rightarrow>
                       if chk \<noteq> 1 then Inl (ErrorText (js ''Invalid checksum for '' @ lc s))
                       else Inr (take split (lc s), ws)))"
proof -
  have "\<not> (s \<noteq> lc s \<and> s \<noteq> uc s)" using assms by blast
  then show ?thesis
    unfolding Bech32_decode_words_def Let_def by (simp only: if_False) simp
qed

lemma decode_words_lowered_ascii:
  assumes "Bech32_decode_words lc uc s = Inr r"
  shows "ascii (lc s)" and "s = lc s \<or> s = uc s"
proof -
  show c: "s = lc s \<or> s = uc s"
    using assms decode_words_mixed [of s lc uc] by (cases "s = lc s \<or> s = uc s") simp_all
  define str where "str = lc s"
  note w = assms [unfolded decode_words_uniform [of s lc uc, OF c], folded str_def]
  obtain split where sp: "lastIndexOf str 49 = Some split"
    using w by (cases "lastIndexOf str 49") simp_all
  have i: "split < length str" "str ! split = 49"
    using lastIndexOf_Some [OF sp] by simp_all
  obtain chk0 where p: "prefixChk (take split str) = Inr chk0"
    using w sp by (cases "prefixChk (take split str)") (simp_all split: if_splits)
  obtain r' where d: "decode_words (drop (split + 1) str) chk0 [] = Inr r'"
    using w sp p by (cases "decode_words (drop (split + 1) str) chk0 []") (simp_all split: if_splits)
  have "set str = set (take split str @ str ! split # drop (Suc split) str)"
    using id_take_nth_drop [OF i(1)] by (rule arg_cong)
  also have "\<dots> = set (take split str) \<union> {49} \<union> set (drop (split + 1) str)"
    using i(2) by simp
  finally have e: "set str = set (take split str) \<union> {49} \<union> set (drop (split + 1) str)" .
  show "ascii (lc s)"
    using prefixChk_chars [OF p] decode_words_chars [OF d]
    unfolding ascii_def str_def [symmetric] e by auto
qed

lemma same_lowered:
  assumes "s = lc s \<or> s = uc s" "t = lc t \<or> t = uc t" "lc s = lc t"
  shows "Bech32_decode lc uc s = Bech32_decode lc uc t"
proof -
  have "Bech32_decode_words lc uc s = Bech32_decode_words lc uc t"
    by (simp only: decode_words_uniform [of s lc uc, OF assms(1)] decode_words_uniform [of t lc uc, OF assms(2)] assms(3))
  then show ?thesis by (simp add: Bech32_decode_def)
qed

lemma upper_ascii: "ascii s \<Longrightarrow> ascii (map ascii_upper s)"
  by (auto simp: ascii_def ascii_upper_def)

lemma lower_ascii: "ascii s \<Longrightarrow> ascii (map ascii_lower s)"
  by (auto simp: ascii_def ascii_lower_def)

lemma lower_upper: "ascii_lower (ascii_upper c) = ascii_lower c"
  by (auto simp: ascii_lower_def ascii_upper_def)

lemma upper_lower: "ascii_upper (ascii_lower c) = ascii_upper c"
  by (auto simp: ascii_lower_def ascii_upper_def)

lemma lower_lower: "ascii_lower (ascii_lower c) = ascii_lower c"
  by (auto simp: ascii_lower_def)

lemma upper_upper: "ascii_upper (ascii_upper c) = ascii_upper c"
  by (auto simp: ascii_upper_def)

lemma casing:
  assumes "ascii_casing lc uc" "ascii s"
  shows "lc s = map ascii_lower s" "uc s = map ascii_upper s"
  using assms by (simp_all add: ascii_casing_def ascii_def)

lemma decode_upper_of_lower:
  assumes c: "ascii_casing lc uc" and a: "ascii s"
  shows "Bech32_decode lc uc (map ascii_upper s) = Bech32_decode lc uc (map ascii_lower s)"
proof (rule same_lowered)
  have "uc (map ascii_upper s) = map ascii_upper (map ascii_upper s)"
    using casing(2) [OF c upper_ascii [OF a]] .
  then show "map ascii_upper s = lc (map ascii_upper s) \<or> map ascii_upper s = uc (map ascii_upper s)"
    by (simp add: upper_upper)
  have "lc (map ascii_lower s) = map ascii_lower (map ascii_lower s)"
    using casing(1) [OF c lower_ascii [OF a]] .
  then show "map ascii_lower s = lc (map ascii_lower s) \<or> map ascii_lower s = uc (map ascii_lower s)"
    by (simp add: lower_lower)
  show "lc (map ascii_upper s) = lc (map ascii_lower s)"
    using casing(1) [OF c upper_ascii [OF a]] casing(1) [OF c lower_ascii [OF a]]
    by (simp add: lower_upper lower_lower)
qed

lemma map_fixed: "map f s = s \<longleftrightarrow> (\<forall>c \<in> set s. f c = c)"
  by (induction s) auto

lemma not_lower_iff: "s \<noteq> map ascii_lower s \<longleftrightarrow> has_upper s"
proof -
  have "map ascii_lower s = s \<longleftrightarrow> \<not> has_upper s"
    unfolding map_fixed has_upper_def by (auto simp: ascii_lower_def)
  then show ?thesis by metis
qed

lemma not_upper_iff: "s \<noteq> map ascii_upper s \<longleftrightarrow> has_lower s"
proof -
  have "map ascii_upper s = s \<longleftrightarrow> \<not> has_lower s"
    unfolding map_fixed has_lower_def by (auto simp: ascii_upper_def)
  then show ?thesis by metis
qed

lemma mixed_rejected:
  "s \<noteq> lc s \<Longrightarrow> s \<noteq> uc s \<Longrightarrow>
   Bech32_decode lc uc s = Inl (ErrorText (js ''Mixed-case string '' @ s))"
  by (simp add: Bech32_decode_def decode_words_mixed)

lemma prefixChk_high_error:
  "prefixChk_high p cs chk = Inl e \<Longrightarrow> e = ErrorText (js ''Invalid prefix ('' @ p @ js '')'')"
proof (induction cs arbitrary: chk)
  case Nil
  then show ?case by simp
next
  case (Cons c cs)
  then show ?case by (auto split: if_splits)
qed

lemma decode_words_error:
  "decode_words cs chk ws = Inl e \<Longrightarrow> \<exists>c. e = ErrorText (js ''Unknown character '' @ [c])"
proof (induction cs arbitrary: chk ws)
  case Nil
  then show ?case by simp
next
  case (Cons c cs)
  then show ?case by (cases "ALPHABET_MAP c") auto
qed

lemma convert_error:
  "convert d i k pad = Inl e \<Longrightarrow> e = Error ''Excess padding'' \<or> e = Error ''Non-zero padding''"
  by (auto simp: convert_def Let_def split: prod.splits if_splits)

lemma prefixToVersion_error: "prefixToVersion p = Inl e \<Longrightarrow> \<exists>m. e = Error m"
  by (auto simp: prefixToVersion_def Let_def split: jsvalue.splits if_splits)

lemma messages_differ:
  "js ''Mixed-case string '' @ t \<noteq> js ''No separator character for '' @ u"
  "js ''Mixed-case string '' @ t \<noteq> js ''Missing prefix for '' @ u"
  "js ''Mixed-case string '' @ t \<noteq> js ''Invalid checksum for '' @ u"
  "js ''Mixed-case string '' @ t \<noteq> js ''Invalid prefix ('' @ p @ js '')''"
  "js ''Mixed-case string '' @ t \<noteq> js ''Unknown character '' @ [c]"
  by (simp_all add: js_def)

lemma words_not_mixed_error:
  assumes u: "s = lc s \<or> s = uc s"
  shows "Bech32_decode_words lc uc s \<noteq> Inl (ErrorText (js ''Mixed-case string '' @ t))"
proof
  assume m: "Bech32_decode_words lc uc s = Inl (ErrorText (js ''Mixed-case string '' @ t))"
  define str where "str = lc s"
  note w = m [unfolded decode_words_uniform [of s lc uc, OF u], folded str_def]
  note d = messages_differ messages_differ [symmetric]
  show False
  proof (cases "lastIndexOf str 49")
    case None
    then show False using w d by simp
  next
    case (Some split)
    show False
    proof (cases "prefixChk (take split str)")
      case pe: (Inl e')
      then have "e' = ErrorText (js ''Invalid prefix ('' @ take split str @ js '')'')"
        using prefixChk_high_error [of "take split str" "take split str" 1 e']
        by (auto simp: prefixChk_def split: sum.splits)
      then show False
        using w Some pe d by (simp split: if_splits)
    next
      case pr: (Inr chk0)
      show False
      proof (cases "decode_words (drop (split + 1) str) chk0 []")
        case we: (Inl e')
        then obtain c where "e' = ErrorText (js ''Unknown character '' @ [c])"
          using decode_words_error by blast
        then show False
          using w Some pr we d by (simp split: if_splits)
      next
        case wr: (Inr r)
        then show False
          using w Some pr d by (simp split: if_splits prod.splits)
      qed
    qed
  qed
qed

lemma uniform_not_mixed_error:
  assumes u: "s = lc s \<or> s = uc s"
  shows "Bech32_decode lc uc s \<noteq> Inl (ErrorText (js ''Mixed-case string '' @ t))"
proof
  assume m: "Bech32_decode lc uc s = Inl (ErrorText (js ''Mixed-case string '' @ t))"
  show False
  proof (cases "Bech32_decode_words lc uc s")
    case (Inl e)
    then have "e = ErrorText (js ''Mixed-case string '' @ t)"
      using m by (simp add: Bech32_decode_def)
    then show False using Inl words_not_mixed_error [of s lc uc, OF u] by simp
  next
    case (Inr r)
    obtain prefix ws where r: "r = (prefix, ws)" by (cases r)
    show False
    proof (cases "convert ws 5 8 False")
      case (Inl e)
      then show False using m Inr r convert_error [OF Inl] by (auto simp: Bech32_decode_def)
    next
      case c: (Inr bytes)
      show False
      proof (cases "prefixToVersion (Str prefix)")
        case (Inl e)
        then show False
          using m Inr r c prefixToVersion_error [OF Inl]
          by (auto simp: Bech32_decode_def split: if_splits)
      next
        case v: (Inr v)
        then show False using m Inr r c by (auto simp: Bech32_decode_def split: if_splits)
      qed
    qed
  qed
qed

lemma decode_length:
  assumes d: "Bech32_decode lc uc s = Inr bs"
  shows "length bs = 34"
proof (cases "Bech32_decode_words lc uc s")
  case (Inl e)
  then show ?thesis using d by (simp add: Bech32_decode_def)
next
  case (Inr r)
  obtain prefix ws where r: "r = (prefix, ws)" by (cases r)
  show ?thesis
  proof (cases "convert ws 5 8 False")
    case (Inl e)
    then show ?thesis using d Inr r by (simp add: Bech32_decode_def)
  next
    case c: (Inr bytes)
    show ?thesis
    proof (cases "prefixToVersion (Str prefix)")
      case (Inl e)
      then show ?thesis using d Inr r c by (simp add: Bech32_decode_def split: if_splits)
    next
      case v: (Inr v)
      have l: "length bytes = 32"
        using d Inr r c v by (simp add: Bech32_decode_def split: if_splits)
      have "bs = setUint16 (set_at (replicate 34 0) (map ucast bytes) 2) 0 (of_nat v)"
        using d Inr r c v l by (simp add: Bech32_decode_def)
      then show ?thesis using l by (simp add: setUint16_def set_at_def)
    qed
  qed
qed

lemma decode_upper_form:
  assumes c: "ascii_casing lc uc" and d: "Bech32_decode lc uc s = Inr bs"
  shows "Bech32_decode lc uc (uc s) = Inr bs"
proof -
  obtain r where w: "Bech32_decode_words lc uc s = Inr r"
    using d by (cases "Bech32_decode_words lc uc s") (simp_all add: Bech32_decode_def)
  note a = decode_words_lowered_ascii [OF w]
  show ?thesis
  proof (cases "s = uc s")
    case True
    then show ?thesis using d by simp
  next
    case False
    then have l: "s = lc s" using a(2) by simp
    then have s: "ascii s" using a(1) by simp
    have "uc s = map ascii_upper s" "map ascii_lower s = s"
      using casing [OF c s] l by simp_all
    then show ?thesis using decode_upper_of_lower [OF c s] d by simp
  qed
qed

lemma mixed_iff:
  "Bech32_decode lc uc s = Inl (ErrorText (js ''Mixed-case string '' @ s)) \<longleftrightarrow>
   s \<noteq> lc s \<and> s \<noteq> uc s"
  using mixed_rejected [of s lc uc] uniform_not_mixed_error [of s lc uc s] by blast

lemma uniform_same:
  assumes c: "ascii_casing lc uc" and a: "ascii s" and u: "\<not> (has_upper s \<and> has_lower s)"
  shows "Bech32_decode lc uc (map ascii_upper s) = Bech32_decode lc uc s"
    and "Bech32_decode lc uc (map ascii_lower s) = Bech32_decode lc uc s"
proof -
  have "map ascii_lower s = s \<or> map ascii_upper s = s"
    using u not_lower_iff [of s] not_upper_iff [of s] by metis
  then show "Bech32_decode lc uc (map ascii_upper s) = Bech32_decode lc uc s"
    and "Bech32_decode lc uc (map ascii_lower s) = Bech32_decode lc uc s"
    using decode_upper_of_lower [OF c a] by auto
qed

text \<open>
  C10. \<open>toLowerCase\<close> and \<open>toUpperCase\<close> being what they are on ASCII strings: for
  every string \<open>s\<close> that decodes successfully, to 34 bytes, the all-uppercase form of
  \<open>s\<close> decodes successfully to the same 34 bytes. A string is rejected as mixed-case
  exactly when it is neither its own lower-case form nor its own upper-case form; for an
  ASCII string, exactly when it holds both an upper-case and a lower-case letter. Any other
  ASCII string is decoded as its lower-case and its upper-case forms are, with the same
  bytes or the same error: case alone rejects only strings that mix the two.
\<close>

theorem decode_case_insensitive:
  "ascii_casing lc uc \<longrightarrow>
     (Bech32_decode lc uc s = Inr bs \<longrightarrow>
        length bs = 34 \<and> Bech32_decode lc uc (uc s) = Inr bs) \<and>
     (Bech32_decode lc uc s = Inl (ErrorText (js ''Mixed-case string '' @ s)) \<longleftrightarrow>
        s \<noteq> lc s \<and> s \<noteq> uc s) \<and>
     (ascii s \<longrightarrow>
        (s \<noteq> lc s \<and> s \<noteq> uc s \<longleftrightarrow> has_upper s \<and> has_lower s) \<and>
        (\<not> (has_upper s \<and> has_lower s) \<longrightarrow>
           Bech32_decode lc uc (map ascii_upper s) = Bech32_decode lc uc s \<and>
           Bech32_decode lc uc (map ascii_lower s) = Bech32_decode lc uc s))"
proof (intro impI conjI)
  assume c: "ascii_casing lc uc"
  show "(Bech32_decode lc uc s = Inl (ErrorText (js ''Mixed-case string '' @ s))) =
    (s \<noteq> lc s \<and> s \<noteq> uc s)" by (rule mixed_iff)
  {
    assume d: "Bech32_decode lc uc s = Inr bs"
    show "length bs = 34" using d by (rule decode_length)
    show "Bech32_decode lc uc (uc s) = Inr bs" using c d by (rule decode_upper_form)
  }
  {
    assume a: "ascii s"
    show "(s \<noteq> lc s \<and> s \<noteq> uc s) = (has_upper s \<and> has_lower s)"
      using casing [OF c a] not_lower_iff [of s] not_upper_iff [of s] by simp
    assume u: "\<not> (has_upper s \<and> has_lower s)"
    show "Bech32_decode lc uc (map ascii_upper s) = Bech32_decode lc uc s"
      using c a u by (rule uniform_same(1))
    show "Bech32_decode lc uc (map ascii_lower s) = Bech32_decode lc uc s"
      using c a u by (rule uniform_same(2))
  }
qed

lemma umi_decoded:
  "Bech32_decode (map ascii_lower) (map ascii_upper)
     (js ''umi1qqqqqqqqqqqqqqqqqqqqqqqqqqqqqqqqqqqqqqqqqqqqqqqqqqqqr5zcpj'') =
   Inr ((replicate 34 0)[0 := 0x55, 1 := 0xA9])"
  by code_simp

lemma umi_upper:
  "map ascii_upper (js ''umi1qqqqqqqqqqqqqqqqqqqqqqqqqqqqqqqqqqqqqqqqqqqqqqqqqqqqr5zcpj'') =
   js ''UMI1QQQQQQQQQQQQQQQQQQQQQQQQQQQQQQQQQQQQQQQQQQQQQQQQQQQQR5ZCPJ''"
  by (simp add: js_def ascii_upper_def)

lemma ascii_casing_ascii: "ascii_casing (map ascii_lower) (map ascii_upper)"
  by (simp add: ascii_casing_def)

theorem decode_case_witness:
  "ascii_casing (map ascii_lower) (map ascii_upper) \<and>
   Bech32_decode (map ascii_lower) (map ascii_upper)
     (js ''umi1qqqqqqqqqqqqqqqqqqqqqqqqqqqqqqqqqqqqqqqqqqqqqqqqqqqqr5zcpj'') =
     Inr ((replicate 34 0)[0 := 0x55, 1 := 0xA9]) \<and>
   Bech32_decode (map ascii_lower) (map ascii_upper)
     (js ''UMI1QQQQQQQQQQQQQQQQQQQQQQQQQQQQQQQQQQQQQQQQQQQQQQQQQQQQR5ZCPJ'') =
     Inr ((replicate 34 0)[0 := 0x55, 1 := 0xA9]) \<and>
   ascii (js ''Aa1qqqqqqqq'') \<and> has_upper (js ''Aa1qqqqqqqq'') \<and> has_lower (js ''Aa1qqqqqqqq'') \<and>
   Bech32_decode (map ascii_lower) (map ascii_upper) (js ''Aa1qqqqqqqq'') =
     Inl (ErrorText (js ''Mixed-case string Aa1qqqqqqqq'')) \<and>
   ascii (js ''AA1QQQQQQQQ'') \<and> \<not> has_lower (js ''AA1QQQQQQQQ'') \<and>
   Bech32_decode (map ascii_lower) (map ascii_upper) (js ''aa1qqqqqqqq'') =
     Bech32_decode (map ascii_lower) (map ascii_upper) (js ''AA1QQQQQQQQ'')"
proof -
  have a: "Bech32_decode (map ascii_lower) (map ascii_upper)
     (js ''UMI1QQQQQQQQQQQQQQQQQQQQQQQQQQQQQQQQQQQQQQQQQQQQQQQQQQQQR5ZCPJ'') =
     Inr ((replicate 34 0)[0 := 0x55, 1 := 0xA9])"
    using decode_case_insensitive [where lc = "map ascii_lower" and uc = "map ascii_upper"
        and s = "js ''umi1qqqqqqqqqqqqqqqqqqqqqqqqqqqqqqqqqqqqqqqqqqqqqqqqqqqqr5zcpj''"
        and bs = "(replicate 34 0)[0 := 0x55, 1 := 0xA9]", THEN mp, OF ascii_casing_ascii,
        THEN conjunct1] umi_decoded
    by (simp only: umi_upper)
  have m: "ascii (js ''Aa1qqqqqqqq'')" "has_upper (js ''Aa1qqqqqqqq'')" "has_lower (js ''Aa1qqqqqqqq'')"
    "ascii (js ''AA1QQQQQQQQ'')" "\<not> has_lower (js ''AA1QQQQQQQQ'')"
    "map ascii_lower (js ''AA1QQQQQQQQ'') = js ''aa1qqqqqqqq''"
    "js ''Mixed-case string '' @ js ''Aa1qqqqqqqq'' = js ''Mixed-case string Aa1qqqqqqqq''"
    by (simp_all add: js_def ascii_def has_upper_def has_lower_def ascii_lower_def)
  have b: "Bech32_decode (map ascii_lower) (map ascii_upper) (js ''Aa1qqqqqqqq'') =
     Inl (ErrorText (js ''Mixed-case string Aa1qqqqqqqq''))"
    using decode_case_insensitive [where lc = "map ascii_lower" and uc = "map ascii_upper"
        and s = "js ''Aa1qqqqqqqq''", THEN mp, OF ascii_casing_ascii, THEN conjunct2] m(1-3)
    unfolding m(7) [symmetric] by blast
  have c: "Bech32_decode (map ascii_lower) (map ascii_upper) (js ''aa1qqqqqqqq'') =
     Bech32_decode (map ascii_lower) (map ascii_upper) (js ''AA1QQQQQQQQ'')"
    using decode_case_insensitive [where lc = "map ascii_lower" and uc = "map ascii_upper"
        and s = "js ''AA1QQQQQQQQ''", THEN mp, OF ascii_casing_ascii, THEN conjunct2,
        THEN conjunct2] m(4,5)
    unfolding m(6) [symmetric] by blast
  show ?thesis
    using a b c m(1-5) umi_decoded ascii_casing_ascii by simp
qed

end
